theory Spec2Isabelle
  imports Complex_Main
begin

section \<open>Errors\<close>

text \<open>
  Every exception the program can raise on the modelled paths is a Python
  \<^verbatim>\<open>ValueError\<close>; a computation that may raise returns \<open>py_error + 'a\<close>.  An audio block
  is a one-dimensional array, modelled as a list.
\<close>

datatype py_error = ValueError

type_synonym 'a result = "py_error + 'a"

definition bind_result :: "'a result \<Rightarrow> ('a \<Rightarrow> 'b result) \<Rightarrow> 'b result" where
  "bind_result r f = (case r of Inl e \<Rightarrow> Inl e | Inr v \<Rightarrow> f v)"

section \<open>Floating-point samples\<close>

text \<open>
  The blocks and filter coefficients of the conditioning pipeline are NumPy arrays of
  64-bit floats.  A sample is a finite number, one of the two infinities, or NaN.
  Arithmetic follows IEEE 754 on the special values; on finite operands the result is
  the exact one when its magnitude is below \<open>2 ^ 1024\<close> and an infinity otherwise.
  Rounding, underflow and the sign of zero are outside the model.
\<close>

datatype sample = Fin real | PInf | NInf | NaN

definition huge :: real where
  "huge = 2 ^ 1024"

definition overflow :: "real \<Rightarrow> sample" where
  "overflow r = (if huge \<le> r then PInf else if r \<le> - huge then NInf else Fin r)"

fun fneg :: "sample \<Rightarrow> sample" where
  "fneg (Fin a) = Fin (- a)"
| "fneg PInf = NInf"
| "fneg NInf = PInf"
| "fneg NaN = NaN"

fun fadd :: "sample \<Rightarrow> sample \<Rightarrow> sample" where
  "fadd (Fin a) (Fin b) = overflow (a + b)"
| "fadd NaN _ = NaN"
| "fadd _ NaN = NaN"
| "fadd PInf NInf = NaN"
| "fadd NInf PInf = NaN"
| "fadd PInf _ = PInf"
| "fadd _ PInf = PInf"
| "fadd NInf _ = NInf"
| "fadd _ NInf = NInf"

definition fsub :: "sample \<Rightarrow> sample \<Rightarrow> sample" where
  "fsub x y = fadd x (fneg y)"

fun fmul :: "sample \<Rightarrow> sample \<Rightarrow> sample" where
  "fmul (Fin a) (Fin b) = overflow (a * b)"
| "fmul NaN _ = NaN"
| "fmul _ NaN = NaN"
| "fmul PInf (Fin b) = (if b = 0 then NaN else if 0 < b then PInf else NInf)"
| "fmul NInf (Fin b) = (if b = 0 then NaN else if 0 < b then NInf else PInf)"
| "fmul (Fin a) PInf = (if a = 0 then NaN else if 0 < a then PInf else NInf)"
| "fmul (Fin a) NInf = (if a = 0 then NaN else if 0 < a then NInf else PInf)"
| "fmul PInf PInf = PInf"
| "fmul NInf NInf = PInf"
| "fmul PInf NInf = NInf"
| "fmul NInf PInf = NInf"

text \<open>Division; a zero divisor is taken as positive zero.\<close>

fun fdiv :: "sample \<Rightarrow> sample \<Rightarrow> sample" where
  "fdiv (Fin a) (Fin b) =
     (if b = 0 then (if a = 0 then NaN else if 0 < a then PInf else NInf)
      else overflow (a / b))"
| "fdiv NaN _ = NaN"
| "fdiv _ NaN = NaN"
| "fdiv (Fin a) _ = Fin 0"
| "fdiv PInf (Fin b) = (if b < 0 then NInf else PInf)"
| "fdiv NInf (Fin b) = (if b < 0 then PInf else NInf)"
| "fdiv _ _ = NaN"

fun fabs :: "sample \<Rightarrow> sample" where
  "fabs (Fin a) = Fin \<bar>a\<bar>"
| "fabs NaN = NaN"
| "fabs _ = PInf"

text \<open>The comparison \<^verbatim>\<open><\<close>: false whenever an operand is NaN.\<close>

fun flt :: "sample \<Rightarrow> sample \<Rightarrow> bool" where
  "flt (Fin a) (Fin b) = (a < b)"
| "flt NaN _ = False"
| "flt _ NaN = False"
| "flt PInf _ = False"
| "flt _ NInf = False"
| "flt _ _ = True"

text \<open>\<^verbatim>\<open>np.maximum\<close> and \<^verbatim>\<open>np.minimum\<close>: NaN if an operand is NaN.\<close>

definition fmax :: "sample \<Rightarrow> sample \<Rightarrow> sample" where
  "fmax x y = (if x = NaN \<or> y = NaN then NaN else if flt x y then y else x)"

definition fmin :: "sample \<Rightarrow> sample \<Rightarrow> sample" where
  "fmin x y = (if x = NaN \<or> y = NaN then NaN else if flt y x then y else x)"

definition is_fin :: "sample \<Rightarrow> bool" where
  "is_fin s = (case s of Fin r \<Rightarrow> True | _ \<Rightarrow> False)"

definition in_unit_interval :: "sample \<Rightarrow> bool" where
  "in_unit_interval s = (case s of Fin r \<Rightarrow> - 1 \<le> r \<and> r \<le> 1 | _ \<Rightarrow> False)"

section \<open>The NumPy operations the program uses\<close>

text \<open>\<^verbatim>\<open>np.clip(x, lo, hi)\<close> on one sample: \<^verbatim>\<open>minimum(maximum(x, lo), hi)\<close>.\<close>

definition np_clip :: "sample \<Rightarrow> real \<Rightarrow> real \<Rightarrow> sample" where
  "np_clip x lo hi = fmin (fmax x (Fin lo)) (Fin hi)"

text \<open>\<^verbatim>\<open>np.max(np.abs(audio))\<close>: the reduction has no identity, an empty array raises.\<close>

definition np_max_abs :: "sample list \<Rightarrow> sample result" where
  "np_max_abs audio =
     (case audio of [] \<Rightarrow> Inl ValueError | x # xs \<Rightarrow> Inr (fold fmax (map fabs xs) (fabs x)))"

text \<open>\<^verbatim>\<open>np.concatenate(arrays)\<close> of one-dimensional arrays: an empty sequence raises
  (``need at least one array to concatenate'').\<close>

definition np_concatenate :: "'a list list \<Rightarrow> 'a list result" where
  "np_concatenate arrays = (if arrays = [] then Inl ValueError else Inr (concat arrays))"

text \<open>\<^verbatim>\<open>np.roll(buf, -k)\<close> for \<open>k \<ge> 0\<close>: a cyclic shift to the left.\<close>

definition np_roll_left :: "nat \<Rightarrow> 'a list \<Rightarrow> 'a list" where
  "np_roll_left k buf = rotate k buf"

text \<open>
  Assignment \<^verbatim>\<open>target[...] = values\<close> into a slice of \<open>n\<close> elements: the value must
  have \<open>n\<close> elements, or one element, which NumPy broadcasts; anything else raises.
\<close>

definition np_assign :: "nat \<Rightarrow> 'a list \<Rightarrow> 'a list result" where
  "np_assign n vals =
     (if length vals = n then Inr vals
      else if length vals = 1 then Inr (replicate n (hd vals))
      else Inl ValueError)"

text \<open>
  An elementwise binary operation on two one-dimensional arrays with NumPy broadcasting:
  equal shapes, or one operand of a single element; other shapes raise.
\<close>

definition np_binary :: "('a \<Rightarrow> 'b \<Rightarrow> 'c) \<Rightarrow> 'a list \<Rightarrow> 'b list \<Rightarrow> 'c list result" where
  "np_binary f xs ys =
     (if length xs = length ys then Inr (map2 f xs ys)
      else if length ys = 1 then Inr (map (\<lambda>x. f x (hd ys)) xs)
      else if length xs = 1 then Inr (map (\<lambda>y. f (hd xs) y) ys)
      else Inl ValueError)"

section \<open>scipy.signal.lfilter\<close>

text \<open>
  \<^verbatim>\<open>lfilter(b, a, x)\<close> has two paths.  With a denominator of one element it divides \<open>b\<close>
  by \<open>a[0]\<close> and returns the first \<open>len(x)\<close> samples of \<^verbatim>\<open>np.convolve(b, x)\<close>, which
  raises on an empty block:
  \<^verbatim>\<open>
    y[n] = sum of b[n - j] * x[j]
  \<close>
  (the order in which NumPy adds the products is an implementation detail; the model
  adds them by increasing \<open>j\<close>).  Otherwise it rejects \<open>a[0] = 0\<close>, pads both coefficient
  vectors with zeros to a common length \<open>K + 1\<close>, divides them by \<open>a[0]\<close>, and runs the
  direct form II transposed filter from rest, in this order of operations:
  \<^verbatim>\<open>
    y[n]    = d[0] + b[0]*x[n]
    d[i]    = d[i+1] + x[n]*b[i+1] - y[n]*a[i+1]        (i < K - 1)
    d[K-1]  = x[n]*b[K] - y[n]*a[K]
  \<close>
  An empty coefficient vector is rejected on both paths.
\<close>

definition pad_to :: "nat \<Rightarrow> sample list \<Rightarrow> sample list" where
  "pad_to n xs = xs @ replicate (n - length xs) (Fin 0)"

fun delays :: "sample list \<Rightarrow> sample list \<Rightarrow> sample list \<Rightarrow> sample \<Rightarrow> sample \<Rightarrow> sample list" where
  "delays (bi # bs) (ai # as) (z # zs) x y =
     fsub (fadd z (fmul x bi)) (fmul y ai) # delays bs as zs x y"
| "delays (bi # bs) (ai # as) [] x y = [fsub (fmul x bi) (fmul y ai)]"
| "delays _ _ _ x y = []"

definition lfilter_step ::
  "sample list \<Rightarrow> sample list \<Rightarrow> sample list \<Rightarrow> sample \<Rightarrow> sample \<times> sample list" where
  "lfilter_step bn an d x =
     (let y = (case d of [] \<Rightarrow> fmul x (hd bn) | z # _ \<Rightarrow> fadd z (fmul (hd bn) x));
          d' = delays (tl bn) (tl an) (tl d) x y
      in (y, d'))"

fun lfilter_run ::
  "sample list \<Rightarrow> sample list \<Rightarrow> sample list \<Rightarrow> sample list \<Rightarrow> sample list" where
  "lfilter_run bn an d [] = []"
| "lfilter_run bn an d (x # xs) =
     (case lfilter_step bn an d x of (y, d') \<Rightarrow> y # lfilter_run bn an d' xs)"

definition fir_convolve :: "sample list \<Rightarrow> sample list \<Rightarrow> sample list" where
  "fir_convolve b x =
     map (\<lambda>n. foldl fadd (Fin 0)
                 (map (\<lambda>j. fmul (x ! j) (b ! (n - j))) [Suc n - min (Suc n) (length b)..<Suc n]))
         [0..<length x]"

definition lfilter :: "sample list \<Rightarrow> sample list \<Rightarrow> sample list \<Rightarrow> sample list result" where
  "lfilter b a x =
     (if b = [] \<or> a = [] then Inl ValueError
      else if length a = 1
      then (if x = [] then Inl ValueError
            else Inr (fir_convolve (map (\<lambda>c. fdiv c (hd a)) b) x))
      else if hd a = Fin 0 then Inl ValueError
      else
        let k = max (length a) (length b);
            bn = map (\<lambda>c. fdiv c (hd a)) (pad_to k b);
            an = map (\<lambda>c. fdiv c (hd a)) (pad_to k a)
        in Inr (lfilter_run bn an (replicate (k - 1) (Fin 0)) x))"

section \<open>scipy.signal.firwin and scipy.signal.butter\<close>

text \<open>
  Filter design is done by SciPy.  \<^verbatim>\<open>firwin(numtaps, cutoff, fs=fs, pass_zero=...)\<close>
  checks its arguments in this order and raises \<^verbatim>\<open>ValueError\<close> on the first failure:
  at least one cutoff; every cutoff, divided by the Nyquist frequency \<open>fs/2\<close>, strictly
  between 0 and 1; cutoffs strictly increasing; an even number of taps only when the
  response at Nyquist is zero; a non-negative window length.  The taps are the windowed
  sinc sum over the pass bands, with a Hamming window, scaled to unit gain in the first
  pass band.
\<close>

definition sinc :: "real \<Rightarrow> real" where
  "sinc x = (if x = 0 then 1 else sin (pi * x) / (pi * x))"

definition hamming :: "nat \<Rightarrow> real list" where
  "hamming M =
     (if M \<le> 1 then replicate M 1
      else map (\<lambda>n. 54 / 100 - 46 / 100 * cos (2 * pi * real n / real (M - 1))) [0..<M])"

fun bands_of :: "real list \<Rightarrow> (real \<times> real) list" where
  "bands_of (l # r # rest) = (l, r) # bands_of rest"
| "bands_of _ = []"

fun strictly_increasing :: "real list \<Rightarrow> bool" where
  "strictly_increasing (x # y # rest) = (x < y \<and> strictly_increasing (y # rest))"
| "strictly_increasing _ = True"

definition firwin_taps :: "nat \<Rightarrow> (real \<times> real) list \<Rightarrow> real list" where
  "firwin_taps numtaps bands =
     (let alpha = (real numtaps - 1) / 2;
          m = map (\<lambda>i. real i - alpha) [0..<numtaps];
          h = map (\<lambda>mi. sum_list (map (\<lambda>(l, r). r * sinc (r * mi) - l * sinc (l * mi)) bands)) m;
          hw = map2 (*) h (hamming numtaps);
          scale_frequency =
            (case bands of [] \<Rightarrow> 0
             | (l, r) # _ \<Rightarrow> if l = 0 then 0 else if r = 1 then 1 else (l + r) / 2);
          s = sum_list (map2 (\<lambda>hi mi. hi * cos (pi * mi * scale_frequency)) hw m)
      in map (\<lambda>hi. hi / s) hw)"

definition firwin :: "int \<Rightarrow> real list \<Rightarrow> bool \<Rightarrow> real \<Rightarrow> real list result" where
  "firwin numtaps cutoff pass_zero fs =
     (let nyq = fs / 2;
          cutoff' = map (\<lambda>c. c / nyq) cutoff;
          pass_nyquist = (odd (length cutoff') \<noteq> pass_zero)
      in if cutoff' = [] then Inl ValueError
         else if list_ex (\<lambda>c. c \<le> 0) cutoff' \<or> list_ex (\<lambda>c. 1 \<le> c) cutoff' then Inl ValueError
         else if strictly_increasing cutoff' = False then Inl ValueError
         else if pass_nyquist \<and> even numtaps then Inl ValueError
         else if numtaps < 0 then Inl ValueError
         else Inr (firwin_taps (nat numtaps)
                     (bands_of ((if pass_zero then [0] else []) @ cutoff' @
                                (if pass_nyquist then [1] else [])))))"

text \<open>
  \<^verbatim>\<open>butter(N, Wn, btype=..., fs=fs)\<close> lower-cases the band name and looks it up in its
  table of aliases, normalises the critical frequencies by \<open>fs/2\<close>, and raises
  \<^verbatim>\<open>ValueError\<close> when a frequency is not strictly between 0 and 1, when two frequencies are
  not increasing, when the band name is unknown, when a low-pass or high-pass request
  does not have exactly one frequency, or when a band request has fewer than two.  The
  transfer function it returns has degree \<open>N\<close> for a low-pass or high-pass design and
  \<open>2 * N\<close> for a band-pass or band-stop design, so numerator and denominator have one
  coefficient more than that, and the denominator is monic.  The values of the
  coefficients (Butterworth prototype of order \<open>N\<close>, frequency transformation, bilinear
  transform, expansion of the poles and zeros) are SciPy's and are a parameter of the
  model: \<open>core N band Wn i\<close> is the pair of the \<open>i\<close>-th numerator and denominator
  coefficients.
\<close>

datatype band = Lowpass | Highpass | Bandpass | Bandstop

type_synonym butter_core = "nat \<Rightarrow> band \<Rightarrow> real list \<Rightarrow> nat \<Rightarrow> real \<times> real"

definition lower_char :: "char \<Rightarrow> char" where
  "lower_char c =
     (case map_of (zip ''ABCDEFGHIJKLMNOPQRSTUVWXYZ'' ''abcdefghijklmnopqrstuvwxyz'') c of
        None \<Rightarrow> c
      | Some l \<Rightarrow> l)"

definition band_dict :: "string \<Rightarrow> band option" where
  "band_dict name =
     (if name \<in> set [''band'', ''bandpass'', ''pass'', ''bp''] then Some Bandpass
      else if name \<in> set [''bs'', ''bandstop'', ''bands'', ''stop''] then Some Bandstop
      else if name \<in> set [''l'', ''low'', ''lowpass'', ''lp''] then Some Lowpass
      else if name \<in> set [''high'', ''highpass'', ''h'', ''hp''] then Some Highpass
      else None)"

definition butter_degree :: "nat \<Rightarrow> band \<Rightarrow> nat" where
  "butter_degree N bt = (if bt = Lowpass \<or> bt = Highpass then N else 2 * N)"

definition butter_coefficients ::
  "butter_core \<Rightarrow> nat \<Rightarrow> band \<Rightarrow> real list \<Rightarrow> real list \<times> real list" where
  "butter_coefficients core N bt Wn =
     (map (\<lambda>i. fst (core N bt Wn i)) [0..<Suc (butter_degree N bt)],
      1 # map (\<lambda>i. snd (core N bt Wn i)) [1..<Suc (butter_degree N bt)])"

definition butter ::
  "butter_core \<Rightarrow> nat \<Rightarrow> real list \<Rightarrow> string \<Rightarrow> real \<Rightarrow> (real list \<times> real list) result" where
  "butter core N Wn btype fs =
     (let Wn' = map (\<lambda>w. 2 * w / fs) Wn
      in if list_ex (\<lambda>w. w \<le> 0) Wn' then Inl ValueError
         else if 1 < length Wn' \<and> (Wn' ! 0 < Wn' ! 1) = False then Inl ValueError
         else case band_dict (map lower_char btype) of
                None \<Rightarrow> Inl ValueError
              | Some bt \<Rightarrow>
                  if list_ex (\<lambda>w. 1 \<le> w) Wn' then Inl ValueError
                  else if bt = Lowpass \<or> bt = Highpass
                       then (if length Wn' = 1 then Inr (butter_coefficients core N bt Wn')
                             else Inl ValueError)
                       else (if length Wn' < 2 then Inl ValueError
                             else Inr (butter_coefficients core N bt Wn')))"

section \<open>audio.py: filter design, gain staging and the stream callback\<close>

text \<open>
  \<^verbatim>\<open>
  def design_filter(filter_type='low', cutoff=4000, fs=44100, order=101, use_fir=True):
      if use_fir:
          taps = firwin(order, cutoff, fs=fs, pass_zero=(filter_type == 'low'))
          return taps, None
      else:
          b, a = butter(N=6, Wn=cutoff, fs=fs, btype=filter_type)
          return b, a
  \<close>
  A scalar cutoff is the one-element list.
\<close>

definition design_filter ::
  "butter_core \<Rightarrow> string \<Rightarrow> real list \<Rightarrow> real \<Rightarrow> int \<Rightarrow> bool
     \<Rightarrow> (real list \<times> real list option) result" where
  "design_filter core filter_type cutoff fs order use_fir =
     (if use_fir
      then bind_result (firwin order cutoff (filter_type = ''low'') fs) (\<lambda>taps. Inr (taps, None))
      else bind_result (butter core 6 cutoff filter_type fs) (\<lambda>(b, a). Inr (b, Some a)))"

text \<open>\<^verbatim>\<open>amplify(audio, gain)\<close> is \<^verbatim>\<open>np.clip(audio * gain, -1.0, 1.0)\<close>.\<close>

definition amplify :: "sample list \<Rightarrow> sample \<Rightarrow> sample list" where
  "amplify audio gain = map (\<lambda>s. np_clip (fmul s gain) (-1) 1) audio"

text \<open>\<^verbatim>\<open>apply_filter(audio, b, a)\<close>: a missing denominator is \<open>[1.0]\<close>.\<close>

definition apply_filter ::
  "sample list \<Rightarrow> sample list \<Rightarrow> sample list option \<Rightarrow> sample list result" where
  "apply_filter audio b a = lfilter b (case a of None \<Rightarrow> [Fin 1] | Some a' \<Rightarrow> a') audio"

text \<open>
  \<^verbatim>\<open>
  def highpass_noise_removal(audio, fs=44100, cutoff=100):
      b, a = butter(4, cutoff, btype='high', fs=fs)
      return lfilter(b, a, audio)
  \<close>
\<close>

definition highpass_noise_removal ::
  "butter_core \<Rightarrow> sample list \<Rightarrow> real \<Rightarrow> real \<Rightarrow> sample list result" where
  "highpass_noise_removal core audio fs cutoff =
     bind_result (butter core 4 [cutoff] ''high'' fs)
       (\<lambda>(b, a). lfilter (map Fin b) (map Fin a) audio)"

text \<open>The dictionary returned by \<^verbatim>\<open>get_user_params\<close>, read once before the stream starts.\<close>

record user_params =
  p_cutoff :: real
  p_gain :: sample
  p_duration :: real
  p_filter_type :: string
  p_use_fir :: bool
  p_noise_reduction :: bool

text \<open>
  The stream callback of \<^verbatim>\<open>realtime_process_visual\<close>, with \<open>fs = 44100\<close>; the result is
  the block written to \<^verbatim>\<open>outdata\<close>:
  \<^verbatim>\<open>
  def callback(indata, outdata, frames, time, status):
      in_audio = indata[:, 0]
      if params["noise_reduction"]:
          in_audio = highpass_noise_removal(in_audio, fs)
      filtered = apply_filter(in_audio, b, a)
      amplified = amplify(filtered, params["gain"])
      outdata[:, 0] = amplified
  \<close>
\<close>

definition callback ::
  "butter_core \<Rightarrow> user_params \<Rightarrow> sample list \<Rightarrow> sample list option \<Rightarrow> sample list
     \<Rightarrow> sample list result" where
  "callback core params b a indata =
     bind_result (if p_noise_reduction params
                  then highpass_noise_removal core indata 44100 100
                  else Inr indata) (\<lambda>in_audio.
     bind_result (apply_filter in_audio b a) (\<lambda>filtered.
     let amplified = amplify filtered (p_gain params)
     in np_assign (length indata) amplified))"

section \<open>numpy.fft.rfft and numpy.fft.irfft\<close>

text \<open>
  \<^verbatim>\<open>rfft\<close> of \<open>n\<close> real samples is the first \<open>n div 2 + 1\<close> bins of the discrete Fourier
  transform; no samples raise.  \<^verbatim>\<open>irfft\<close> of \<open>m\<close> bins, called without a length, produces
  \<open>n = 2 * (m - 1)\<close> samples and raises when that is not positive; it reads the spectrum
  as Hermitian, so the imaginary parts of the first and the last bin are ignored.  The
  transforms are modelled on finite samples in exact arithmetic; overflow inside them
  is outside the model.
\<close>

definition dft_bin :: "real list \<Rightarrow> nat \<Rightarrow> complex" where
  "dft_bin x k = sum_list (map (\<lambda>j. complex_of_real (x ! j) *
                     cis (- (2 * pi * real j * real k / real (length x)))) [0..<length x])"

definition rfft :: "real list \<Rightarrow> complex list result" where
  "rfft x =
     (let n = length x
      in if n = 0 then Inl ValueError
         else Inr (map (dft_bin x) [0..<n div 2 + 1]))"

definition irfft :: "complex list \<Rightarrow> real list result" where
  "irfft X =
     (let m = length X; n = 2 * (m - 1)
      in if m \<le> 1 then Inl ValueError
         else Inr (map (\<lambda>j. (Re (X ! 0)
                            + sum_list (map (\<lambda>k. 2 * Re (X ! k * cis (2 * pi * real j * real k / real n)))
                                            [1..<m - 1])
                            + Re (X ! (m - 1)) * cos (pi * real j)) / real n)
                       [0..<n]))"

section \<open>audio\_advanced.py: per-block conditioning\<close>

text \<open>
  \<^verbatim>\<open>
  def design_iir_filter(self, filter_type='band', cutoff=[150, 3500], fs=44100):
      b, a = butter(N=6, Wn=cutoff, fs=fs, btype=filter_type)
      return b, a
  \<close>
\<close>

definition design_iir_filter ::
  "butter_core \<Rightarrow> string \<Rightarrow> real list \<Rightarrow> real \<Rightarrow> (real list \<times> real list) result" where
  "design_iir_filter core filter_type cutoff fs = butter core 6 cutoff filter_type fs"

text \<open>
  \<^verbatim>\<open>
  def spectral_subtraction(self, audio, noise_estimate):
      spectrum = np.fft.rfft(audio)
      noise_spectrum = np.fft.rfft(noise_estimate)
      magnitude = np.abs(spectrum)
      phase = np.angle(spectrum)
      clean_magnitude = np.maximum(magnitude - np.abs(noise_spectrum), 0)
      cleaned_signal = np.fft.irfft(clean_magnitude * np.exp(1j * phase))
      return cleaned_signal
  \<close>
\<close>

definition spectral_subtraction :: "real list \<Rightarrow> real list \<Rightarrow> real list result" where
  "spectral_subtraction audio noise_estimate =
     bind_result (rfft audio) (\<lambda>spectrum.
     bind_result (rfft noise_estimate) (\<lambda>noise_spectrum.
     let magnitude = map cmod spectrum;
         phase = map Arg spectrum
     in bind_result (np_binary (-) magnitude (map cmod noise_spectrum)) (\<lambda>diff.
        let clean_magnitude = map (\<lambda>v. max v 0) diff
        in bind_result (np_binary (\<lambda>mag ph. complex_of_real mag * cis ph) clean_magnitude phase)
             irfft)))"

text \<open>\<^verbatim>\<open>noise_gate(signal, threshold=0.015)\<close> is
  \<^verbatim>\<open>np.where(np.abs(signal) < threshold, 0, signal)\<close>.\<close>

definition noise_gate :: "sample list \<Rightarrow> real \<Rightarrow> sample list" where
  "noise_gate signal threshold =
     map (\<lambda>s. if flt (fabs s) (Fin threshold) then Fin 0 else s) signal"

definition default_threshold :: real where
  "default_threshold = 15 / 1000"

text \<open>\<^verbatim>\<open>normalize_audio(audio)\<close> is \<^verbatim>\<open>audio / (np.max(np.abs(audio)) + 1e-6)\<close>.\<close>

definition normalize_audio :: "sample list \<Rightarrow> sample list result" where
  "normalize_audio audio =
     bind_result (np_max_abs audio)
       (\<lambda>peak. Inr (map (\<lambda>s. fdiv s (fadd peak (Fin (1 / 1000000)))) audio))"

text \<open>
  \<^verbatim>\<open>
  def process_audio(self, audio, b, a, gain, use_gate=False):
      audio = self.normalize_audio(audio)
      filtered = lfilter(b, a, audio)
      if use_gate:
          filtered = self.noise_gate(filtered)
      amplified = np.clip(filtered * gain, -1.0, 1.0)
      return amplified
  \<close>
\<close>

definition process_audio ::
  "sample list \<Rightarrow> sample list \<Rightarrow> sample list \<Rightarrow> sample \<Rightarrow> bool \<Rightarrow> sample list result" where
  "process_audio audio b a gain use_gate =
     bind_result (normalize_audio audio) (\<lambda>audio'.
     bind_result (lfilter b a audio') (\<lambda>filtered.
       let filtered' = (if use_gate then noise_gate filtered default_threshold else filtered);
           amplified = map (\<lambda>s. np_clip (fmul s gain) (-1) 1) filtered'
       in Inr amplified))"

section \<open>audio\_advanced.py: the streaming session\<close>

text \<open>
  \<^verbatim>\<open>realtime_process\<close> creates the rolling buffer \<^verbatim>\<open>self.realtime_buffer\<close> and the list
  \<^verbatim>\<open>self.recorded_audio\<close>; the callback is their only writer.  The three widgets the
  callback reads on every block are the environment of a call.
\<close>

record session =
  realtime_buffer :: "sample list"
  recorded_audio :: "sample list list"

record controls =
  gain_slider :: sample
  noise_gate_var :: bool
  record_var :: bool

definition initial_session :: session where
  "initial_session = \<lparr>realtime_buffer = replicate 44100 (Fin 0), recorded_audio = []\<rparr>"

text \<open>
  \<^verbatim>\<open>
  def audio_callback(indata, outdata, frames, time, status):
      audio_in = indata[:, 0]
      gain = float(self.gain_slider.get())
      use_gate = self.noise_gate_var.get()
      record = self.record_var.get()
      cleaned = self.spectral_subtraction(audio_in, noise_profile)
      audio_out = self.process_audio(cleaned, b, a, gain, use_gate=use_gate)
      outdata[:, 0] = audio_out
      self.realtime_buffer = np.roll(self.realtime_buffer, -frames)
      self.realtime_buffer[-frames:] = audio_out
      if record:
          self.recorded_audio.append(audio_out.copy())
  \<close>
  The result is the block written to \<^verbatim>\<open>outdata\<close> and the session after the call;
  \<open>frames\<close> is the length of \<open>indata\<close>.  The slice \<^verbatim>\<open>[-frames:]\<close> is the last \<open>frames\<close>
  elements, and the whole buffer when \<open>frames\<close> is 0 or exceeds its length.  The block
  delivered by the device and the noise profile are finite samples; the cleaned block
  enters \<open>process_audio\<close> as floating-point samples.
\<close>

definition audio_callback ::
  "sample list \<Rightarrow> sample list \<Rightarrow> real list \<Rightarrow> controls \<Rightarrow> real list \<Rightarrow> session
     \<Rightarrow> (sample list \<times> session) result" where
  "audio_callback b a noise_profile ctl indata st =
     (let frames = length indata;
          gain = gain_slider ctl;
          use_gate = noise_gate_var ctl;
          record = record_var ctl
      in bind_result (spectral_subtraction indata noise_profile) (\<lambda>cleaned.
         bind_result (process_audio (map Fin cleaned) b a gain use_gate) (\<lambda>audio_out.
         bind_result (np_assign frames audio_out) (\<lambda>outdata.
         let rolled = np_roll_left frames (realtime_buffer st);
             width = (if frames = 0 then length rolled else min frames (length rolled))
         in bind_result (np_assign width audio_out) (\<lambda>tail.
            Inr (outdata,
                 st\<lparr>realtime_buffer := take (length rolled - width) rolled @ tail,
                    recorded_audio := (if record then recorded_audio st @ [audio_out]
                                       else recorded_audio st)\<rparr>))))))"

text \<open>
  The end of \<^verbatim>\<open>stream_thread\<close>, when \<^verbatim>\<open>sd.sleep\<close> has returned:
  \<^verbatim>\<open>
      if self.record_var.get():
          full_audio = np.concatenate(self.recorded_audio)
          sf.write("realtime_recorded.wav", full_audio, fs)
  \<close>
  The result is the content of the file written, if one is written.
\<close>

definition stream_thread_end :: "controls \<Rightarrow> session \<Rightarrow> sample list option result" where
  "stream_thread_end ctl st =
     (if record_var ctl
      then bind_result (np_concatenate (recorded_audio st)) (\<lambda>full_audio. Inr (Some full_audio))
      else Inr None)"

section \<open>The documented stage order\<close>

text \<open>
  This definition follows the words of the specification, not the source: normalise,
  then the noise gate when it is enabled, then the linear filter, then gain, then hard
  clipping.  It exists only to be compared with \<open>process_audio\<close>.
\<close>

definition process_documented_order ::
  "sample list \<Rightarrow> sample list \<Rightarrow> sample list \<Rightarrow> sample \<Rightarrow> bool \<Rightarrow> sample list result" where
  "process_documented_order audio b a gain use_gate =
     bind_result (normalize_audio audio) (\<lambda>normalized.
     let suppressed = (if use_gate then noise_gate normalized default_threshold else normalized)
     in bind_result (lfilter b a suppressed) (\<lambda>filtered.
        Inr (map (\<lambda>s. np_clip (fmul s gain) (-1) 1) filtered)))"

section \<open>Evaluation of the model on concrete blocks\<close>

lemma huge_bounds: "10 ^ 308 < huge" "huge < 10 ^ 309"
  by (simp_all add: huge_def)

lemma overflow_in_range: "\<bar>r\<bar> \<le> 10 ^ 308 \<Longrightarrow> overflow r = Fin r"
  using huge_bounds(1) by (auto simp: overflow_def)

lemma overflow_above: "10 ^ 309 \<le> r \<Longrightarrow> overflow r = PInf"
  using huge_bounds(2) by (auto simp: overflow_def)

lemma overflow_below: "r \<le> - (10 ^ 309) \<Longrightarrow> overflow r = NInf"
  using huge_bounds by (auto simp: overflow_def)

lemma overflow_zero: "overflow 0 = Fin 0"
  by (simp add: overflow_in_range)

lemma overflow_small: "\<bar>r\<bar> \<le> 1000 \<Longrightarrow> overflow r = Fin r"
  by (rule overflow_in_range) simp

lemmas process_audio_eval =
  process_audio_def normalize_audio_def np_max_abs_def bind_result_def lfilter_def
  fir_convolve_def pad_to_def lfilter_step_def noise_gate_def default_threshold_def
  np_clip_def fmax_def fmin_def fsub_def overflow_small Let_def

section \<open>The clipping invariant\<close>

lemma np_clip_unit: "np_clip x (- 1) 1 = NaN \<or> in_unit_interval (np_clip x (- 1) 1)"
  by (cases x) (simp_all add: np_clip_def fmax_def fmin_def in_unit_interval_def)

lemma np_clip_unit_not_nan: "x \<noteq> NaN \<Longrightarrow> in_unit_interval (np_clip x (- 1) 1)"
  by (cases x) (simp_all add: np_clip_def fmax_def fmin_def in_unit_interval_def)

lemma fmul_fin_not_nan: "fmul (Fin a) (Fin b) \<noteq> NaN"
  by (simp add: overflow_def)

lemma amplify_range: "list_all (\<lambda>y. y = NaN \<or> in_unit_interval y) (amplify audio gain)"
  by (simp add: amplify_def list_all_iff np_clip_unit)

lemma amplify_finite_range:
  assumes "list_all is_fin audio"
  shows "list_all in_unit_interval (amplify audio (Fin g))"
proof -
  have "in_unit_interval (np_clip (fmul s (Fin g)) (- 1) 1)" if "is_fin s" for s
  proof -
    from that obtain r where "s = Fin r" by (cases s) (simp_all add: is_fin_def)
    then show ?thesis by (simp only: np_clip_unit_not_nan [OF fmul_fin_not_nan])
  qed
  with assms show ?thesis
    by (simp add: amplify_def list_all_iff)
qed

lemma np_assign_list_all:
  assumes "np_assign n vals = Inr out" and "list_all P vals"
  shows "list_all P out"
proof (cases "length vals = n")
  case True
  with assms show ?thesis by (simp add: np_assign_def)
next
  case False
  with assms have one: "length vals = 1" and out: "out = replicate n (hd vals)"
    by (auto simp: np_assign_def split: if_splits)
  from one obtain v where "vals = [v]" by (cases vals) auto
  with assms(2) out show ?thesis by (simp add: list_all_iff)
qed

lemma process_audio_unfold:
  assumes "normalize_audio audio = Inr y" and "lfilter b a y = Inr z"
  shows "process_audio audio b a gain use_gate
           = Inr (amplify (if use_gate then noise_gate z default_threshold else z) gain)"
  using assms by (simp add: process_audio_def bind_result_def Let_def amplify_def)

lemma process_audio_stages:
  assumes "process_audio audio b a gain use_gate = Inr out"
  shows "\<exists>normalized filtered.
           normalize_audio audio = Inr normalized \<and>
           lfilter b a normalized = Inr filtered \<and>
           out = amplify (if use_gate then noise_gate filtered default_threshold else filtered) gain"
proof (cases "normalize_audio audio")
  case (Inl e)
  with assms show ?thesis by (simp add: process_audio_def bind_result_def)
next
  case y: (Inr y)
  show ?thesis
  proof (cases "lfilter b a y")
    case (Inl e)
    with assms y show ?thesis by (simp add: process_audio_def bind_result_def)
  next
    case z: (Inr z)
    from assms show ?thesis
      by (simp add: process_audio_unfold [OF y z] y z)
  qed
qed

lemma process_audio_range:
  assumes "process_audio audio b a gain use_gate = Inr out"
  shows "list_all (\<lambda>y. y = NaN \<or> in_unit_interval y) out"
  using process_audio_stages [OF assms] amplify_range by auto

lemma callback_stages:
  assumes "callback core params b a indata = Inr out"
  shows "\<exists>in_audio filtered.
           (if p_noise_reduction params then highpass_noise_removal core indata 44100 100
            else Inr indata) = Inr in_audio \<and>
           apply_filter in_audio b a = Inr filtered \<and>
           np_assign (length indata) (amplify filtered (p_gain params)) = Inr out"
  using assms
  by (auto simp: callback_def bind_result_def Let_def split: sum.splits)

lemma callback_range:
  assumes "callback core params b a indata = Inr out"
  shows "list_all (\<lambda>y. y = NaN \<or> in_unit_interval y) out"
proof -
  from callback_stages [OF assms] obtain filtered where
    "np_assign (length indata) (amplify filtered (p_gain params)) = Inr out"
    by blast
  then show ?thesis by (rule np_assign_list_all) (rule amplify_range)
qed

lemma noise_gate_finite:
  assumes "list_all is_fin signal"
  shows "list_all is_fin (noise_gate signal threshold)"
  using assms by (auto simp: noise_gate_def list_all_iff is_fin_def)

lemma process_audio_finite_range:
  assumes "normalize_audio audio = Inr y" and "lfilter b a y = Inr z" and "list_all is_fin z"
  shows "\<exists>out. process_audio audio b a (Fin g) use_gate = Inr out
               \<and> list_all in_unit_interval out"
proof -
  have "list_all is_fin (if use_gate then noise_gate z default_threshold else z)"
    using assms(3) by (simp add: noise_gate_finite)
  then have "list_all in_unit_interval
               (amplify (if use_gate then noise_gate z default_threshold else z) (Fin g))"
    by (rule amplify_finite_range)
  then show ?thesis
    by (simp only: process_audio_unfold [OF assms(1,2)] sum.inject simp_thms ex_simps)
qed

lemma normalize_ones:
  "normalize_audio (replicate 6 (Fin 1)) = Inr (replicate 6 (Fin (1000000 / 1000001)))"
  by (simp add: normalize_audio_def np_max_abs_def bind_result_def fmax_def overflow_small
        eval_nat_numeral)

lemmas step_eval = lfilter_step_def fsub_def Let_def overflow_in_range overflow_above overflow_below

lemma overflow_step_1:
  "lfilter_step [Fin 1, Fin 0, Fin 0] [Fin 1, Fin (- (10 ^ 200)), Fin (10 ^ 200)]
     [Fin 0, Fin 0] (Fin (1000000 / 1000001))
   = (Fin (1000000 / 1000001),
      [Fin (1000000 / 1000001 * 10 ^ 200), Fin (- (1000000 / 1000001 * 10 ^ 200))])"
  by (simp add: step_eval)

lemma overflow_step_2:
  "lfilter_step [Fin 1, Fin 0, Fin 0] [Fin 1, Fin (- (10 ^ 200)), Fin (10 ^ 200)]
     [Fin (1000000 / 1000001 * 10 ^ 200), Fin (- (1000000 / 1000001 * 10 ^ 200))]
     (Fin (1000000 / 1000001))
   = (Fin (1000000 / 1000001 * 10 ^ 200 + 1000000 / 1000001), [PInf, NInf])"
  by (simp add: step_eval)

lemma overflow_step_3:
  "lfilter_step [Fin 1, Fin 0, Fin 0] [Fin 1, Fin (- (10 ^ 200)), Fin (10 ^ 200)]
     [PInf, NInf] (Fin (1000000 / 1000001))
   = (PInf, [NaN, NInf])"
  by (simp add: lfilter_step_def fsub_def Let_def overflow_small)

lemma overflow_step_4:
  "lfilter_step [Fin 1, Fin 0, Fin 0] [Fin 1, Fin (- (10 ^ 200)), Fin (10 ^ 200)]
     [NaN, NInf] (Fin (1000000 / 1000001))
   = (NaN, [NaN, NaN])"
  by (simp add: lfilter_step_def fsub_def Let_def overflow_small)

lemma overflow_step_5:
  "lfilter_step [Fin 1, Fin 0, Fin 0] [Fin 1, Fin (- (10 ^ 200)), Fin (10 ^ 200)]
     [NaN, NaN] (Fin (1000000 / 1000001))
   = (NaN, [NaN, NaN])"
  by (simp add: lfilter_step_def fsub_def Let_def overflow_small)

lemma replicate_six: "replicate 6 x = [x, x, x, x, x, x]"
  by (simp add: eval_nat_numeral)

lemma overflow_coefficients:
  "map (\<lambda>c. fdiv c (Fin 1)) (pad_to 3 [Fin 1]) = [Fin 1, Fin 0, Fin 0]"
  "map (\<lambda>c. fdiv c (Fin 1)) (pad_to 3 [Fin 1, Fin (- (10 ^ 200)), Fin (10 ^ 200)])
     = [Fin 1, Fin (- (10 ^ 200)), Fin (10 ^ 200)]"
  by (simp_all add: pad_to_def overflow_in_range eval_nat_numeral)

lemma lfilter_overflow:
  "lfilter [Fin 1] [Fin 1, Fin (- (10 ^ 200)), Fin (10 ^ 200)]
       (replicate 6 (Fin (1000000 / 1000001)))
     = Inr [Fin (1000000 / 1000001), Fin (1000000 / 1000001 * 10 ^ 200 + 1000000 / 1000001),
            PInf, NaN, NaN, NaN]"
proof -
  have run: "lfilter_run [Fin 1, Fin 0, Fin 0] [Fin 1, Fin (- (10 ^ 200)), Fin (10 ^ 200)]
               [Fin 0, Fin 0] (replicate 6 (Fin (1000000 / 1000001)))
             = [Fin (1000000 / 1000001), Fin (1000000 / 1000001 * 10 ^ 200 + 1000000 / 1000001),
                PInf, NaN, NaN, NaN]"
    by (simp only: replicate_six lfilter_run.simps overflow_step_1 overflow_step_2
          overflow_step_3 overflow_step_4 overflow_step_5 prod.case)
  have k: "max (length [Fin 1, Fin (- (10 ^ 200)), Fin (10 ^ 200)]) (length [Fin 1]) = 3"
    by simp
  have rest: "replicate (3 - 1) (Fin 0) = [Fin 0, Fin 0]"
    by (simp add: eval_nat_numeral)
  have path: "length [Fin 1, Fin (- (10 ^ 200)), Fin (10 ^ 200)] \<noteq> 1"
    and head: "hd [Fin 1, Fin (- (10 ^ 200)), Fin (10 ^ 200)] = Fin 1"
    by simp_all
  show ?thesis
    unfolding lfilter_def Let_def k rest head overflow_coefficients run
    using path by simp
qed

lemma amplify_overflow:
  "amplify [Fin (1000000 / 1000001), Fin (1000000 / 1000001 * 10 ^ 200 + 1000000 / 1000001),
            PInf, NaN, NaN, NaN] (Fin 1)
     = [Fin (1000000 / 1000001), Fin 1, Fin 1, NaN, NaN, NaN]"
  by (simp add: amplify_def np_clip_def fmax_def fmin_def overflow_in_range)

text \<open>
  Claim C1, as stated: every sample returned by \<open>process_audio\<close> lies in the closed
  interval from \<open>-1\<close> to \<open>1\<close>, whatever the filter coefficients.  It fails: on a block of
  six ones with \<open>b = [1]\<close>, \<open>a = [1, -1e200, 1e200]\<close> and gain 1, the recursion of the
  filter overflows to infinity, the difference of two infinities is NaN, and
  \<^verbatim>\<open>np.clip\<close> passes NaN through.
\<close>

theorem process_output_nan_counterexample:
  "process_audio (replicate 6 (Fin 1)) [Fin 1] [Fin 1, Fin (- (10 ^ 200)), Fin (10 ^ 200)]
       (Fin 1) False
     = Inr [Fin (1000000 / 1000001), Fin 1, Fin 1, NaN, NaN, NaN]
   \<and> in_unit_interval NaN = False"
  by (simp only: process_audio_unfold [OF normalize_ones lfilter_overflow] if_False
        amplify_overflow in_unit_interval_def sample.case simp_thms)

text \<open>
  Claim C1, amended.  Whatever the block, the filter coefficients, the gain and the
  noise-gate flag, every sample of a block returned by \<open>process_audio\<close>, by \<open>amplify\<close>
  and by the stream callback of audio.py is NaN or lies in the closed interval from
  \<open>-1\<close> to \<open>1\<close>; when the filtered block and the gain are finite, every sample returned by
  \<open>process_audio\<close> lies in that interval.
\<close>

theorem process_output_in_unit_interval:
  "(process_audio audio b a gain use_gate = Inr out
      \<longrightarrow> list_all (\<lambda>y. y = NaN \<or> in_unit_interval y) out)
   \<and> list_all (\<lambda>y. y = NaN \<or> in_unit_interval y) (amplify audio gain)
   \<and> (callback core params b' a' indata = Inr out'
      \<longrightarrow> list_all (\<lambda>y. y = NaN \<or> in_unit_interval y) out')
   \<and> (normalize_audio audio = Inr normalized \<and> lfilter b a normalized = Inr filtered
        \<and> list_all is_fin filtered
      \<longrightarrow> (\<exists>out. process_audio audio b a (Fin g) use_gate = Inr out
                 \<and> list_all in_unit_interval out))"
proof (intro conjI impI)
  assume "process_audio audio b a gain use_gate = Inr out"
  then show "list_all (\<lambda>y. y = NaN \<or> in_unit_interval y) out"
    by (rule process_audio_range)
next
  show "list_all (\<lambda>y. y = NaN \<or> in_unit_interval y) (amplify audio gain)"
    by (rule amplify_range)
next
  assume "callback core params b' a' indata = Inr out'"
  then show "list_all (\<lambda>y. y = NaN \<or> in_unit_interval y) out'"
    by (rule callback_range)
next
  assume "normalize_audio audio = Inr normalized \<and> lfilter b a normalized = Inr filtered
          \<and> list_all is_fin filtered"
  then show "\<exists>out. process_audio audio b a (Fin g) use_gate = Inr out
                   \<and> list_all in_unit_interval out"
    using process_audio_finite_range by blast
qed

theorem process_output_in_unit_interval_witness:
  "process_audio [Fin (1 / 2), Fin (- 1)] [Fin 1] [Fin 1] (Fin 3) True = Inr [Fin 1, Fin (- 1)]
   \<and> list_all (\<lambda>y. y = NaN \<or> in_unit_interval y) [Fin 1, Fin (- 1)]
   \<and> amplify [Fin (1 / 2), Fin (- 1)] (Fin 3) = [Fin 1, Fin (- 1)]
   \<and> callback (\<lambda>N bt Wn i. (if i = 0 then 1 else 0, 0))
        \<lparr>p_cutoff = 4000, p_gain = Fin 10, p_duration = 5, p_filter_type = ''low'',
         p_use_fir = True, p_noise_reduction = False\<rparr> [Fin 1] None [Fin 1, Fin (- 1 / 4)]
       = Inr [Fin 1, Fin (- 1)]
   \<and> normalize_audio [Fin (1 / 2), Fin (- 1)]
       = Inr [Fin (500000 / 1000001), Fin (- (1000000 / 1000001))]
   \<and> lfilter [Fin 1] [Fin 1] [Fin (500000 / 1000001), Fin (- (1000000 / 1000001))]
       = Inr [Fin (500000 / 1000001), Fin (- (1000000 / 1000001))]
   \<and> list_all is_fin [Fin (500000 / 1000001), Fin (- (1000000 / 1000001))]
   \<and> list_all in_unit_interval [Fin 1, Fin (- 1)]"
  using process_output_in_unit_interval
    [of "[Fin (1 / 2), Fin (- 1)]" "[Fin 1]" "[Fin 1]" "Fin 3" True "[Fin 1, Fin (- 1)]"
        "\<lambda>N bt Wn i. (if i = 0 then 1 else 0, 0)"
        "\<lparr>p_cutoff = 4000, p_gain = Fin 10, p_duration = 5, p_filter_type = ''low'',
          p_use_fir = True, p_noise_reduction = False\<rparr>" "[Fin 1]" None
        "[Fin 1, Fin (- 1 / 4)]" "[Fin 1, Fin (- 1)]"
        "[Fin (500000 / 1000001), Fin (- (1000000 / 1000001))]"
        "[Fin (500000 / 1000001), Fin (- (1000000 / 1000001))]" 3]
  by (simp add: process_audio_eval callback_def apply_filter_def amplify_def np_assign_def
        is_fin_def in_unit_interval_def)

section \<open>The order of the stages\<close>

lemma butter_coefficients_unit:
  "butter_coefficients (\<lambda>N bt Wn i. (if i = 0 then 1 else 0, 0)) 4 Highpass Wn
     = ([1, 0, 0, 0, 0], [1, 0, 0, 0, 0])"
  by (simp add: butter_coefficients_def butter_degree_def upt_rec)

lemma highpass_noise_removal_unit:
  "highpass_noise_removal (\<lambda>N bt Wn i. (if i = 0 then 1 else 0, 0)) [Fin 1, Fin (- (1 / 4))] 44100 100
     = Inr [Fin 1, Fin (- (1 / 4))]"
  by (simp add: highpass_noise_removal_def butter_def band_dict_def lower_char_def
        butter_coefficients_unit bind_result_def lfilter_def pad_to_def lfilter_step_def
        fsub_def overflow_small Let_def)

text \<open>
  Claim C2, as stated: the stages run in the documented order, the noise gate before the
  linear filter.  It fails: on the one-sample block \<open>[1]\<close> with the filter \<open>b = [0.01]\<close>,
  \<open>a = [1]\<close>, gain 1 and the gate enabled, \<open>process_audio\<close> returns \<open>[0]\<close> (the filtered
  sample is below the gate's threshold), while the documented order returns the
  filtered sample \<open>10000 / 1000001\<close>.
\<close>

theorem gate_before_filter_counterexample:
  "process_audio [Fin 1] [Fin (1 / 100)] [Fin 1] (Fin 1) True
     \<noteq> process_documented_order [Fin 1] [Fin (1 / 100)] [Fin 1] (Fin 1) True"
  by (simp add: process_documented_order_def process_audio_eval)

text \<open>
  Claim C2, amended.  \<open>process_audio\<close> normalises, then applies the linear filter, then the
  noise gate (when enabled) to the filtered block, then gain and hard clipping.  The
  stream callback of audio.py applies its high-pass noise removal (when enabled), then
  the designed filter, then gain and hard clipping.
\<close>

theorem process_audio_stage_order:
  "(process_audio audio b a gain use_gate = Inr out \<longrightarrow>
      (\<exists>normalized filtered.
         normalize_audio audio = Inr normalized \<and>
         lfilter b a normalized = Inr filtered \<and>
         out = amplify (if use_gate then noise_gate filtered default_threshold else filtered) gain))
   \<and> (callback core params b' a' indata = Inr out' \<longrightarrow>
      (\<exists>in_audio filtered.
         (if p_noise_reduction params then highpass_noise_removal core indata 44100 100
          else Inr indata) = Inr in_audio \<and>
         apply_filter in_audio b' a' = Inr filtered \<and>
         np_assign (length indata) (amplify filtered (p_gain params)) = Inr out'))"
  by (auto simp: process_audio_def callback_def bind_result_def amplify_def Let_def
           split: sum.splits)

theorem process_audio_stage_order_witness:
  "process_audio [Fin 1] [Fin (1 / 100)] [Fin 1] (Fin 1) True = Inr [Fin 0]
   \<and> normalize_audio [Fin 1] = Inr [Fin (1000000 / 1000001)]
   \<and> lfilter [Fin (1 / 100)] [Fin 1] [Fin (1000000 / 1000001)] = Inr [Fin (10000 / 1000001)]
   \<and> amplify (noise_gate [Fin (10000 / 1000001)] default_threshold) (Fin 1) = [Fin 0]
   \<and> callback (\<lambda>N bt Wn i. (if i = 0 then 1 else 0, 0))
        \<lparr>p_cutoff = 4000, p_gain = Fin 10, p_duration = 5, p_filter_type = ''low'',
         p_use_fir = True, p_noise_reduction = True\<rparr> [Fin 1] None [Fin 1, Fin (- 1 / 4)]
       = Inr [Fin 1, Fin (- 1)]"
  using process_audio_stage_order
    [of "[Fin 1]" "[Fin (1 / 100)]" "[Fin 1]" "Fin 1" True "[Fin 0]"
        "\<lambda>N bt Wn i. (if i = 0 then 1 else 0, 0)"
        "\<lparr>p_cutoff = 4000, p_gain = Fin 10, p_duration = 5, p_filter_type = ''low'',
          p_use_fir = True, p_noise_reduction = True\<rparr>" "[Fin 1]" None
        "[Fin 1, Fin (- 1 / 4)]" "[Fin 1, Fin (- 1)]"]
  by (simp add: process_audio_eval callback_def apply_filter_def amplify_def np_assign_def
        highpass_noise_removal_unit)

section \<open>Lengths\<close>

lemma length_lfilter_run: "length (lfilter_run bn an d x) = length x"
  by (induction x arbitrary: d) (auto simp: lfilter_step_def Let_def split: prod.splits)

lemma length_fir_convolve: "length (fir_convolve b x) = length x"
  by (simp add: fir_convolve_def)

lemma lfilter_result_length:
  assumes "lfilter b a x = Inr y"
  shows "length y = length x"
  using assms
  by (auto simp: lfilter_def Let_def length_lfilter_run length_fir_convolve split: if_splits)

lemma lfilter_total:
  assumes "b \<noteq> []" and "a \<noteq> []" and "hd a \<noteq> Fin 0" and "x \<noteq> []"
  shows "\<exists>y. lfilter b a x = Inr y \<and> length y = length x"
  using assms by (simp add: lfilter_def Let_def length_lfilter_run length_fir_convolve)

lemma normalize_audio_total:
  assumes "audio \<noteq> []"
  shows "\<exists>y. normalize_audio audio = Inr y \<and> length y = length audio"
  using assms by (cases audio) (auto simp: normalize_audio_def np_max_abs_def bind_result_def)

lemma normalize_audio_length:
  assumes "normalize_audio audio = Inr y"
  shows "length y = length audio"
  using assms
  by (cases audio) (auto simp: normalize_audio_def np_max_abs_def bind_result_def)

lemma length_noise_gate: "length (noise_gate signal threshold) = length signal"
  by (simp add: noise_gate_def)

lemma process_audio_length:
  assumes "process_audio audio b a gain use_gate = Inr out"
  shows "length out = length audio"
proof -
  from assms obtain n f where n: "normalize_audio audio = Inr n" and f: "lfilter b a n = Inr f"
    by (auto simp: process_audio_def bind_result_def split: sum.splits)
  from process_audio_unfold [OF n f] assms
  have "out = amplify (if use_gate then noise_gate f default_threshold else f) gain" by simp
  then show ?thesis
    using normalize_audio_length [OF n] lfilter_result_length [OF f]
    by (simp add: amplify_def length_noise_gate)
qed

section \<open>Silence and zero gain\<close>

lemma is_fin_iff: "is_fin s \<longleftrightarrow> (\<exists>r. s = Fin r)"
  by (cases s) (simp_all add: is_fin_def)

lemma silence_replicate:
  "list_all (\<lambda>s. s = c) xs \<Longrightarrow> xs = replicate (length xs) c"
  by (induction xs) auto

lemma list_all_replicate_zero: "list_all (\<lambda>v. v = Fin 0) (replicate k (Fin 0))"
  by (induction k) auto

lemma foldl_fadd_zero:
  "list_all (\<lambda>z. z = Fin 0) xs \<Longrightarrow> foldl fadd (Fin 0) xs = Fin 0"
  by (induction xs) (auto simp: overflow_zero)

lemma delays_silence:
  assumes "list_all is_fin bs" and "list_all is_fin as" and "list_all (\<lambda>z. z = Fin 0) zs"
  shows "list_all (\<lambda>z. z = Fin 0) (delays bs as zs (Fin 0) (Fin 0))"
  using assms
  by (induction bs as zs "Fin 0" "Fin 0" rule: delays.induct)
     (auto simp: is_fin_iff fsub_def overflow_zero)

lemma lfilter_step_silence:
  assumes "bn \<noteq> []" and "list_all is_fin bn" and "list_all is_fin an"
    and "list_all (\<lambda>z. z = Fin 0) d"
  shows "\<exists>d'. lfilter_step bn an d (Fin 0) = (Fin 0, d') \<and> list_all (\<lambda>z. z = Fin 0) d'"
proof -
  from assms(1,2) obtain c where c: "hd bn = Fin c"
    by (cases bn) (auto simp: is_fin_iff)
  have y: "(case d of [] \<Rightarrow> fmul (Fin 0) (hd bn) | z # _ \<Rightarrow> fadd z (fmul (hd bn) (Fin 0))) = Fin 0"
    using assms(4) c by (cases d) (auto simp: overflow_zero)
  have b: "list_all is_fin (tl bn)" using assms(2) by (cases bn) auto
  have a: "list_all is_fin (tl an)" using assms(3) by (cases an) auto
  have d: "list_all (\<lambda>z. z = Fin 0) (tl d)" using assms(4) by (cases d) auto
  show ?thesis
    by (simp add: lfilter_step_def Let_def y delays_silence [OF b a d])
qed

lemma lfilter_run_silence:
  assumes "bn \<noteq> []" and "list_all is_fin bn" and "list_all is_fin an"
    and "list_all (\<lambda>z. z = Fin 0) d"
  shows "lfilter_run bn an d (replicate n (Fin 0)) = replicate n (Fin 0)"
  using assms(4)
proof (induction n arbitrary: d)
  case 0
  show ?case by simp
next
  case (Suc n)
  from lfilter_step_silence [OF assms(1-3) Suc.prems] obtain d' where
    d': "lfilter_step bn an d (Fin 0) = (Fin 0, d')" "list_all (\<lambda>z. z = Fin 0) d'" by blast
  from Suc.IH [OF d'(2)] d'(1) show ?case by simp
qed

lemma fir_convolve_silence:
  assumes "list_all is_fin b"
  shows "fir_convolve b (replicate n (Fin 0)) = replicate n (Fin 0)"
proof -
  have inner: "foldl fadd (Fin 0)
                (map (\<lambda>j. fmul (replicate n (Fin 0) ! j) (b ! (i - j)))
                     [Suc i - min (Suc i) (length b)..<Suc i]) = Fin 0" if "i < n" for i
  proof (rule foldl_fadd_zero)
    have "fmul (replicate n (Fin 0) ! j) (b ! (i - j)) = Fin 0"
      if j: "j \<in> set [Suc i - min (Suc i) (length b)..<Suc i]" for j
    proof -
      from j have lo: "Suc i - min (Suc i) (length b) \<le> j" and hi: "j < Suc i" by auto
      from hi \<open>i < n\<close> have x: "replicate n (Fin 0) ! j = Fin 0" by simp
      from lo hi have "i - j < length b" by (auto simp: min_def split: if_splits)
      with assms obtain c where "b ! (i - j) = Fin c"
        by (auto simp: list_all_length is_fin_iff)
      with x show ?thesis by (simp add: overflow_zero)
    qed
    then show "list_all (\<lambda>z. z = Fin 0)
                 (map (\<lambda>j. fmul (replicate n (Fin 0) ! j) (b ! (i - j)))
                      [Suc i - min (Suc i) (length b)..<Suc i])"
      by (simp add: list_all_iff)
  qed
  have "map (\<lambda>i. foldl fadd (Fin 0)
                (map (\<lambda>j. fmul (replicate n (Fin 0) ! j) (b ! (i - j)))
                     [Suc i - min (Suc i) (length b)..<Suc i])) [0..<n]
          = map (\<lambda>i. Fin 0) [0..<n]"
  proof (rule map_cong [OF refl])
    fix i assume "i \<in> set [0..<n]"
    then have "i < n" by simp
    then show "foldl fadd (Fin 0)
                 (map (\<lambda>j. fmul (replicate n (Fin 0) ! j) (b ! (i - j)))
                      [Suc i - min (Suc i) (length b)..<Suc i]) = Fin 0"
      by (rule inner)
  qed
  also have "\<dots> = replicate n (Fin 0)"
    by (simp add: map_replicate_const)
  finally show ?thesis
    by (simp add: fir_convolve_def)
qed

lemma fdiv_self_finite:
  assumes "is_fin (fdiv a0 a0)"
  shows "\<exists>r. a0 = Fin r \<and> r \<noteq> 0"
  using assms by (cases a0) (auto simp: is_fin_def split: if_splits)

lemma fdiv_zero_by_finite: "r \<noteq> 0 \<Longrightarrow> fdiv (Fin 0) (Fin r) = Fin 0"
  by (simp add: overflow_zero)

lemma lfilter_silence:
  assumes "b \<noteq> []" and "a \<noteq> []" and "0 < n"
    and "list_all is_fin (map (\<lambda>c. fdiv c (hd a)) b)"
    and "length a = 1 \<or> list_all is_fin (map (\<lambda>c. fdiv c (hd a)) a)"
  shows "lfilter b a (replicate n (Fin 0)) = Inr (replicate n (Fin 0))"
proof (cases "length a = 1")
  case True
  with assms(1-3) show ?thesis
    by (simp add: lfilter_def fir_convolve_silence [OF assms(4)])
next
  case False
  with assms(5) have fa: "list_all is_fin (map (\<lambda>c. fdiv c (hd a)) a)" by simp
  with assms(2) have "is_fin (fdiv (hd a) (hd a))" by (cases a) auto
  then obtain r where r: "hd a = Fin r" "r \<noteq> 0"
    using fdiv_self_finite by blast
  let ?k = "max (length a) (length b)"
  let ?bn = "map (\<lambda>c. fdiv c (hd a)) (pad_to ?k b)"
  let ?an = "map (\<lambda>c. fdiv c (hd a)) (pad_to ?k a)"
  have bn: "list_all is_fin ?bn"
    using assms(4) r by (auto simp: pad_to_def list_all_iff overflow_zero is_fin_def)
  have an: "list_all is_fin ?an"
    using fa r by (auto simp: pad_to_def list_all_iff overflow_zero is_fin_def)
  have ne: "?bn \<noteq> []" using assms(1) by (simp add: pad_to_def)
  have "lfilter_run ?bn ?an (replicate (?k - 1) (Fin 0)) (replicate n (Fin 0))
          = replicate n (Fin 0)"
    by (rule lfilter_run_silence [OF ne bn an list_all_replicate_zero])
  with assms(1,2) False r show ?thesis
    by (simp add: lfilter_def Let_def)
qed

lemma funpow_fmax_zero: "(fmax (Fin 0) ^^ n) (Fin 0) = Fin 0"
  by (induction n) (auto simp: fmax_def)

lemma normalize_audio_silence:
  "normalize_audio (replicate (Suc n) (Fin 0)) = Inr (replicate (Suc n) (Fin 0))"
proof -
  have "np_max_abs (replicate (Suc n) (Fin 0)) = Inr (Fin 0)"
    by (simp add: np_max_abs_def funpow_fmax_zero)
  then show ?thesis
    by (simp add: normalize_audio_def bind_result_def overflow_small overflow_zero)
qed

lemma amplify_silence: "amplify (replicate k (Fin 0)) (Fin g) = replicate k (Fin 0)"
  by (simp add: amplify_def np_clip_def fmax_def fmin_def overflow_zero)

lemma noise_gate_silence:
  "noise_gate (replicate k (Fin 0)) default_threshold = replicate k (Fin 0)"
  by (simp add: noise_gate_def)

lemma process_audio_silence:
  assumes "b \<noteq> []" and "a \<noteq> []"
    and "list_all is_fin (map (\<lambda>c. fdiv c (hd a)) b)"
    and "length a = 1 \<or> list_all is_fin (map (\<lambda>c. fdiv c (hd a)) a)"
  shows "process_audio (replicate (Suc n) (Fin 0)) b a (Fin g) use_gate
           = Inr (replicate (Suc n) (Fin 0))"
proof -
  have f: "lfilter b a (replicate (Suc n) (Fin 0)) = Inr (replicate (Suc n) (Fin 0))"
    by (rule lfilter_silence [OF assms(1,2) _ assms(3,4)]) simp
  show ?thesis
    by (simp only: process_audio_unfold [OF normalize_audio_silence f] noise_gate_silence
          amplify_silence if_cancel)
qed

lemma amplify_zero_gain:
  assumes "list_all is_fin w"
  shows "amplify w (Fin 0) = replicate (length w) (Fin 0)"
  using assms
  by (induction w)
     (auto simp: amplify_def is_fin_iff np_clip_def fmax_def fmin_def overflow_zero)

lemma process_audio_zero_gain:
  assumes "normalize_audio audio = Inr y" and "lfilter b a y = Inr z" and "list_all is_fin z"
  shows "process_audio audio b a (Fin 0) use_gate = Inr (replicate (length audio) (Fin 0))"
proof -
  let ?w = "if use_gate then noise_gate z default_threshold else z"
  have fin: "list_all is_fin ?w"
    using assms(3) by (simp add: noise_gate_finite)
  have "length ?w = length audio"
    using normalize_audio_length [OF assms(1)] lfilter_result_length [OF assms(2)]
    by (simp add: length_noise_gate)
  with amplify_zero_gain [OF fin] have "amplify ?w (Fin 0) = replicate (length audio) (Fin 0)"
    by simp
  then show ?thesis
    by (simp only: process_audio_unfold [OF assms(1,2)])
qed

lemma zero_gain_sample:
  "np_clip (fmul (if use_gate then (if flt (fabs s) (Fin t) then Fin 0 else s) else s) (Fin 0))
       (- 1) 1
     = (if is_fin s then Fin 0 else NaN)"
  by (cases s) (simp_all add: np_clip_def fmax_def fmin_def is_fin_def overflow_zero)

lemma zero_gain_block:
  "amplify (if use_gate then noise_gate z t else z) (Fin 0)
     = map (\<lambda>s. if is_fin s then Fin 0 else NaN) z"
  using zero_gain_sample [where use_gate = use_gate and t = t]
  by (cases use_gate) (simp_all add: amplify_def noise_gate_def)

lemma zero_gain_silent_iff:
  "map (\<lambda>s. if is_fin s then Fin 0 else NaN) z = replicate n (Fin 0)
     \<longleftrightarrow> length z = n \<and> list_all is_fin z"
proof (induction z arbitrary: n)
  case Nil
  show ?case by auto
next
  case (Cons s z)
  then show ?case by (cases n) auto
qed

lemma process_audio_zero_gain_iff:
  assumes "normalize_audio audio = Inr y" and "lfilter b a y = Inr z"
  shows "process_audio audio b a (Fin 0) use_gate = Inr (replicate (length audio) (Fin 0))
           \<longleftrightarrow> list_all is_fin z"
proof -
  have "length z = length audio"
    using normalize_audio_length [OF assms(1)] lfilter_result_length [OF assms(2)] by simp
  then show ?thesis
    by (simp only: process_audio_unfold [OF assms] zero_gain_block zero_gain_silent_iff
          sum.inject simp_thms)
qed

lemma process_audio_returns:
  assumes "audio \<noteq> []" and "b \<noteq> []" and "a \<noteq> []" and "length a = 1 \<or> hd a \<noteq> Fin 0"
  shows "\<exists>out. process_audio audio b a gain use_gate = Inr out \<and> length out = length audio"
proof -
  obtain y where y: "normalize_audio audio = Inr y" and ly: "length y = length audio"
    using normalize_audio_total [OF assms(1)] by blast
  from ly assms(1) have "y \<noteq> []" by auto
  with assms(2-4) have "\<exists>z. lfilter b a y = Inr z"
    by (cases "length a = 1") (simp_all add: lfilter_def Let_def)
  then obtain z where z: "lfilter b a y = Inr z" ..
  have "process_audio audio b a gain use_gate
          = Inr (amplify (if use_gate then noise_gate z default_threshold else z) gain)"
    by (rule process_audio_unfold [OF y z])
  then show ?thesis
    using ly lfilter_result_length [OF z] by (simp add: amplify_def length_noise_gate)
qed

lemma overflow_quotient: "fdiv (Fin (10 ^ 200)) (Fin (1 / 10 ^ 200)) = PInf"
proof -
  have "(10 :: real) ^ 309 \<le> 10 ^ (200 + 200)"
    by (rule power_increasing) simp_all
  moreover have "(10 :: real) ^ 200 / (1 / 10 ^ 200) = 10 ^ (200 + 200)"
    by (simp only: power_add divide_divide_eq_right div_by_1)
  ultimately have "overflow (10 ^ 200 / (1 / 10 ^ 200)) = PInf"
    by (simp only: overflow_above)
  moreover have "(1 :: real) / 10 ^ 200 \<noteq> 0"
    by simp
  ultimately show ?thesis
    by (simp only: fdiv.simps if_False)
qed

lemma fir_convolve_single:
  "fir_convolve [c] [x0, x1, x2]
     = [fadd (Fin 0) (fmul x0 c), fadd (Fin 0) (fmul x1 c), fadd (Fin 0) (fmul x2 c)]"
  by (simp add: fir_convolve_def)

lemma lfilter_overflow_fir:
  "lfilter [Fin (10 ^ 200)] [Fin (1 / 10 ^ 200)] [x0, x1, x2]
     = Inr [fadd (Fin 0) (fmul x0 PInf), fadd (Fin 0) (fmul x1 PInf),
            fadd (Fin 0) (fmul x2 PInf)]"
proof -
  have p: "length [Fin (1 / 10 ^ 200)] = 1"
    by simp
  have c: "map (\<lambda>c. fdiv c (hd [Fin (1 / 10 ^ 200)])) [Fin (10 ^ 200)] = [PInf]"
    by (simp only: list.map list.sel overflow_quotient)
  show ?thesis
    unfolding lfilter_def p c fir_convolve_single by simp
qed

lemma normalize_three_ones:
  "normalize_audio [Fin 1, Fin 1, Fin 1]
     = Inr [Fin (1000000 / 1000001), Fin (1000000 / 1000001), Fin (1000000 / 1000001)]"
  by (simp add: normalize_audio_def np_max_abs_def bind_result_def fmax_def overflow_small)

lemma normalize_three_zeros:
  "normalize_audio [Fin 0, Fin 0, Fin 0] = Inr [Fin 0, Fin 0, Fin 0]"
  by (simp add: normalize_audio_def np_max_abs_def bind_result_def fmax_def overflow_small)

lemma normalize_audio_empty: "normalize_audio [] = Inl ValueError"
  by (simp add: normalize_audio_def np_max_abs_def bind_result_def)

text \<open>
  Claim C6, as stated: \<open>process_audio\<close> returns an all-zero block, without raising, on
  every all-zero block with any gain, and on every block with gain 0.  It fails.  With
  \<open>b = [1e200]\<close> and \<open>a = [1e-200]\<close> the quotient \<open>b[0] / a[0]\<close> that \<^verbatim>\<open>lfilter\<close> forms
  overflows to infinity, and infinity times zero is NaN: the all-zero block of three
  samples with gain 1, and the block of three ones with gain 0, both come back as three
  NaN.  On the empty block \<^verbatim>\<open>np.max\<close> raises \<^verbatim>\<open>ValueError\<close>.
\<close>

theorem silence_and_zero_gain_nan_counterexample:
  "process_audio [Fin 0, Fin 0, Fin 0] [Fin (10 ^ 200)] [Fin (1 / 10 ^ 200)] (Fin 1) False
     = Inr [NaN, NaN, NaN]
   \<and> process_audio [Fin 1, Fin 1, Fin 1] [Fin (10 ^ 200)] [Fin (1 / 10 ^ 200)] (Fin 0) False
     = Inr [NaN, NaN, NaN]
   \<and> process_audio [] [Fin 1] [Fin 1] (Fin 1) False = Inl ValueError"
proof (intro conjI)
  show "process_audio [Fin 0, Fin 0, Fin 0] [Fin (10 ^ 200)] [Fin (1 / 10 ^ 200)] (Fin 1) False
          = Inr [NaN, NaN, NaN]"
    unfolding process_audio_unfold [OF normalize_three_zeros lfilter_overflow_fir]
    by (simp add: amplify_def np_clip_def fmax_def fmin_def)
  show "process_audio [Fin 1, Fin 1, Fin 1] [Fin (10 ^ 200)] [Fin (1 / 10 ^ 200)] (Fin 0) False
          = Inr [NaN, NaN, NaN]"
    unfolding process_audio_unfold [OF normalize_three_ones lfilter_overflow_fir]
    by (simp add: amplify_def np_clip_def fmax_def fmin_def)
  show "process_audio [] [Fin 1] [Fin 1] (Fin 1) False = Inl ValueError"
    by (simp add: process_audio_def normalize_audio_empty bind_result_def)
qed

text \<open>
  Claim C6, amended.  On a non-empty block, with non-empty coefficient vectors and
  \<open>a[0]\<close> not zero where the recursive path of \<^verbatim>\<open>lfilter\<close> needs it, \<open>process_audio\<close>
  returns a block of the input's length without raising, whatever the samples, the
  gain and the gate setting.  On a non-empty all-zero block it returns the all-zero
  block for every finite gain, provided the coefficients divided by \<open>a[0]\<close> are finite.
  With gain 0 it returns the all-zero block exactly when every sample of the filtered
  block is finite.
\<close>

theorem process_audio_total_on_silence_and_zero_gain:
  "(audio \<noteq> [] \<and> b \<noteq> [] \<and> a \<noteq> [] \<and> (length a = 1 \<or> hd a \<noteq> Fin 0)
      \<longrightarrow> (\<exists>out. process_audio audio b a gain use_gate = Inr out
                 \<and> length out = length audio))
   \<and> (silence \<noteq> [] \<and> list_all (\<lambda>s. s = Fin 0) silence \<and> b \<noteq> [] \<and> a \<noteq> []
       \<and> list_all is_fin (map (\<lambda>c. fdiv c (hd a)) b)
       \<and> (length a = 1 \<or> list_all is_fin (map (\<lambda>c. fdiv c (hd a)) a))
      \<longrightarrow> process_audio silence b a (Fin g) use_gate = Inr silence)
   \<and> (normalize_audio audio = Inr normalized \<and> lfilter b a normalized = Inr filtered
      \<longrightarrow> (process_audio audio b a (Fin 0) use_gate = Inr (replicate (length audio) (Fin 0))
             \<longleftrightarrow> list_all is_fin filtered))"
proof (intro conjI impI)
  assume "audio \<noteq> [] \<and> b \<noteq> [] \<and> a \<noteq> [] \<and> (length a = 1 \<or> hd a \<noteq> Fin 0)"
  then show "\<exists>out. process_audio audio b a gain use_gate = Inr out
               \<and> length out = length audio"
    by (intro process_audio_returns) simp_all
next
  assume h: "silence \<noteq> [] \<and> list_all (\<lambda>s. s = Fin 0) silence \<and> b \<noteq> [] \<and> a \<noteq> []
       \<and> list_all is_fin (map (\<lambda>c. fdiv c (hd a)) b)
       \<and> (length a = 1 \<or> list_all is_fin (map (\<lambda>c. fdiv c (hd a)) a))"
  then obtain n where n: "length silence = Suc n"
    by (cases silence) auto
  from h have s: "silence = replicate (Suc n) (Fin 0)"
    using silence_replicate [of "Fin 0" silence] n by simp
  from h have "process_audio (replicate (Suc n) (Fin 0)) b a (Fin g) use_gate
                 = Inr (replicate (Suc n) (Fin 0))"
    by (intro process_audio_silence) simp_all
  then show "process_audio silence b a (Fin g) use_gate = Inr silence"
    by (simp only: s [symmetric])
next
  assume "normalize_audio audio = Inr normalized \<and> lfilter b a normalized = Inr filtered"
  then show "process_audio audio b a (Fin 0) use_gate = Inr (replicate (length audio) (Fin 0))
               \<longleftrightarrow> list_all is_fin filtered"
    by (intro process_audio_zero_gain_iff [of audio normalized b a filtered]) simp_all
qed

theorem process_audio_total_on_silence_and_zero_gain_witness:
  "(\<exists>out. process_audio [Fin (1 / 2), Fin (- 1)] [Fin 1, Fin (1 / 2)] [Fin 2, Fin 1] (Fin 3) True
            = Inr out \<and> length out = Suc (Suc 0))
   \<and> list_all (\<lambda>s. s = Fin 0) [Fin 0, Fin 0]
   \<and> list_all is_fin (map (\<lambda>c. fdiv c (hd [Fin 2, Fin 1])) [Fin 1, Fin (1 / 2)])
   \<and> list_all is_fin (map (\<lambda>c. fdiv c (hd [Fin 2, Fin 1])) [Fin 2, Fin 1])
   \<and> process_audio [Fin 0, Fin 0] [Fin 1, Fin (1 / 2)] [Fin 2, Fin 1] (Fin 5) True
       = Inr [Fin 0, Fin 0]
   \<and> normalize_audio [Fin (1 / 2), Fin (- 1)]
       = Inr [Fin (500000 / 1000001), Fin (- (1000000 / 1000001))]
   \<and> lfilter [Fin 1, Fin (1 / 2)] [Fin 2, Fin 1]
         [Fin (500000 / 1000001), Fin (- (1000000 / 1000001))]
       = Inr [Fin (250000 / 1000001), Fin (- (500000 / 1000001))]
   \<and> list_all is_fin [Fin (250000 / 1000001), Fin (- (500000 / 1000001))]
   \<and> process_audio [Fin (1 / 2), Fin (- 1)] [Fin 1, Fin (1 / 2)] [Fin 2, Fin 1] (Fin 0) True
       = Inr [Fin 0, Fin 0]"
  using process_audio_total_on_silence_and_zero_gain
    [of "[Fin (1 / 2), Fin (- 1)]" "[Fin 1, Fin (1 / 2)]" "[Fin 2, Fin 1]" "Fin 3" True
        "[Fin 0, Fin 0]" 5
        "[Fin (500000 / 1000001), Fin (- (1000000 / 1000001))]"
        "[Fin (250000 / 1000001), Fin (- (500000 / 1000001))]"]
  by (simp add: normalize_audio_def np_max_abs_def bind_result_def lfilter_def pad_to_def
        lfilter_step_def fsub_def fmax_def overflow_small is_fin_def Let_def)

section \<open>Filter design\<close>





lemma length_hamming: "length (hamming M) = M"
  by (simp add: hamming_def)

lemma length_firwin_taps: "length (firwin_taps numtaps bands) = numtaps"
  by (simp add: firwin_taps_def Let_def length_hamming)

lemma firwin_length:
  assumes "firwin numtaps cutoff pass_zero fs = Inr taps"
  shows "int (length taps) = numtaps"
  using assms
  by (auto simp: firwin_def Let_def length_firwin_taps split: if_splits)

lemma cutoff_in_range:
  assumes "0 < (fs :: real)" and "0 < c" and "c < fs / 2"
  shows "0 < c / (fs / 2)" and "c / (fs / 2) < 1" and "0 < 2 * c / fs" and "2 * c / fs < 1"
  using assms by (simp_all add: field_simps)

lemma firwin_single_returns:
  assumes "0 < fs" and "0 < c" and "c < fs / 2" and "0 \<le> numtaps"
    and "pass_zero \<or> odd numtaps"
  shows "\<exists>taps. firwin numtaps [c] pass_zero fs = Inr taps \<and> int (length taps) = numtaps"
proof -
  from cutoff_in_range(1,2) [OF assms(1-3)]
  have "\<not> c / (fs / 2) \<le> 0" and "\<not> 1 \<le> c / (fs / 2)" by simp_all
  with assms(4,5) show ?thesis
    by (auto simp: firwin_def Let_def length_firwin_taps)
qed

lemma firwin_single_even_raises:
  assumes "pass_zero = False" and "even numtaps"
  shows "firwin numtaps [c] pass_zero fs = Inl ValueError"
  using assms by (simp add: firwin_def Let_def)

lemma butter_coefficients_shape:
  assumes "butter_coefficients core N bt Wn = (b, a)"
  shows "length b = Suc (butter_degree N bt)" and "length a = Suc (butter_degree N bt)"
    and "hd a = 1"
  using assms by (auto simp: butter_coefficients_def)

lemma butter_result:
  assumes "butter core N Wn btype fs = Inr (b, a)"
  shows "\<exists>bt. band_dict (map lower_char btype) = Some bt
            \<and> butter_coefficients core N bt (map (\<lambda>w. 2 * w / fs) Wn) = (b, a)"
  using assms
  by (auto simp: butter_def Let_def split: option.splits if_splits)

lemma butter_band_returns:
  assumes "0 < fs" and "0 < lo" and "lo < hi" and "hi < fs / 2"
  shows "butter core N [lo, hi] ''band'' fs
           = Inr (butter_coefficients core N Bandpass [2 * lo / fs, 2 * hi / fs])"
proof -
  from assms have lo: "lo < fs / 2" and hi: "0 < hi" by simp_all
  from cutoff_in_range(3,4) [OF assms(1,2) lo] cutoff_in_range(3,4) [OF assms(1) hi assms(4)]
  have "\<not> 2 * lo / fs \<le> 0" "\<not> 1 \<le> 2 * lo / fs" "\<not> 2 * hi / fs \<le> 0" "\<not> 1 \<le> 2 * hi / fs"
    by simp_all
  moreover from assms(1,3) have "2 * lo / fs < 2 * hi / fs"
    by (simp add: divide_strict_right_mono)
  moreover have "band_dict (map lower_char ''band'') = Some Bandpass"
    by (simp add: band_dict_def lower_char_def)
  ultimately show ?thesis
    by (simp add: butter_def Let_def)
qed

lemma butter_single_returns:
  assumes "0 < fs" and "0 < c" and "c < fs / 2"
    and "band_dict (map lower_char btype) = Some bt" and "bt = Lowpass \<or> bt = Highpass"
  shows "butter core N [c] btype fs = Inr (butter_coefficients core N bt [2 * c / fs])"
proof -
  from cutoff_in_range(3,4) [OF assms(1-3)]
  have "\<not> 2 * c / fs \<le> 0" "\<not> 1 \<le> 2 * c / fs" by simp_all
  with assms(4,5) show ?thesis
    by (auto simp: butter_def Let_def)
qed

lemma band_dict_low_high:
  "band_dict (map lower_char ''low'') = Some Lowpass"
  "band_dict (map lower_char ''high'') = Some Highpass"
  by (simp_all add: band_dict_def lower_char_def)

text \<open>
  Claim C8, as stated: every FIR request with configured order \<open>N\<close> returns exactly \<open>N\<close>
  taps.  It fails: \<^verbatim>\<open>firwin\<close> refuses an even number of taps for a response that passes
  the Nyquist frequency, so the high-pass request with the valid cutoff 4000 Hz at
  44100 Hz and order 100 raises \<^verbatim>\<open>ValueError\<close> and returns no taps.
\<close>

theorem design_even_highpass_counterexample:
  "design_filter (\<lambda>N bt Wn i. (if i = 0 then 1 else 0, 0)) ''high'' [4000] 44100 100 True
     = Inl ValueError"
  by (simp add: design_filter_def firwin_def bind_result_def Let_def)

text \<open>
  Claim C8, amended.  A FIR request that returns, returns exactly \<open>order\<close> taps and no
  denominator; at a positive sample rate, with one cutoff strictly between 0 and half
  the sample rate and a non-negative order, it returns when the filter type is \<open>low\<close> or
  the order is odd, and raises \<^verbatim>\<open>ValueError\<close> when the filter type is not \<open>low\<close> and the
  order is even.  An IIR request, through \<open>design_filter\<close> or through
  \<open>design_iir_filter\<close>, is the Butterworth design with \<open>N = 6\<close> whatever the configured
  FIR order: when it returns, numerator and denominator have 7 coefficients each for a
  low-pass or high-pass design and 13 each for a band-pass or band-stop design, and the
  denominator is monic; it returns for a band-pass request with two increasing cutoffs,
  and for a low-pass or high-pass request with one cutoff, strictly between 0 and half
  the sample rate.
\<close>

theorem design_output_shape:
  "(design_filter core filter_type cutoff fs order True = Inr (b, a)
      \<longrightarrow> int (length b) = order \<and> a = None)
   \<and> (0 < fs \<and> 0 < c \<and> c < fs / 2 \<and> 0 \<le> n \<and> (ft = ''low'' \<or> odd n)
      \<longrightarrow> (\<exists>taps. design_filter core ft [c] fs n True = Inr (taps, None)
                  \<and> int (length taps) = n))
   \<and> (ft' \<noteq> ''low'' \<and> even n'
      \<longrightarrow> design_filter core ft' [c'] fs' n' True = Inl ValueError)
   \<and> design_filter core filter_type cutoff fs order False
        = bind_result (design_iir_filter core filter_type cutoff fs) (\<lambda>(nb, na). Inr (nb, Some na))
   \<and> design_filter core filter_type cutoff fs order False
        = design_filter core filter_type cutoff fs order' False
   \<and> (design_iir_filter core iir_type Wn fs = Inr (nb, na)
      \<longrightarrow> (\<exists>bt. band_dict (map lower_char iir_type) = Some bt
                \<and> length nb = (if bt = Lowpass \<or> bt = Highpass then 7 else 13)
                \<and> length na = (if bt = Lowpass \<or> bt = Highpass then 7 else 13)
                \<and> hd na = 1))
   \<and> (0 < fs \<and> 0 < lo \<and> lo < hi \<and> hi < fs / 2
      \<longrightarrow> (\<exists>nb na. design_iir_filter core ''band'' [lo, hi] fs = Inr (nb, na)
                   \<and> length nb = 13 \<and> length na = 13))
   \<and> (0 < fs \<and> 0 < c \<and> c < fs / 2 \<and> (kind = ''low'' \<or> kind = ''high'')
      \<longrightarrow> (\<exists>nb na. design_filter core kind [c] fs order False = Inr (nb, Some na)
                   \<and> length nb = 7 \<and> length na = 7))"
proof (intro conjI impI)
  assume "design_filter core filter_type cutoff fs order True = Inr (b, a)"
  then obtain taps where "firwin order cutoff (filter_type = ''low'') fs = Inr taps"
    and "b = taps" and "a = None"
    by (auto simp: design_filter_def bind_result_def split: sum.splits)
  then show "int (length b) = order" and "a = None"
    using firwin_length by auto
next
  assume h: "0 < fs \<and> 0 < c \<and> c < fs / 2 \<and> 0 \<le> n \<and> (ft = ''low'' \<or> odd n)"
  then have "\<exists>taps. firwin n [c] (ft = ''low'') fs = Inr taps \<and> int (length taps) = n"
    by (intro firwin_single_returns) simp_all
  then show "\<exists>taps. design_filter core ft [c] fs n True = Inr (taps, None)
               \<and> int (length taps) = n"
    by (auto simp: design_filter_def bind_result_def)
next
  assume "ft' \<noteq> ''low'' \<and> even n'"
  then have "firwin n' [c'] (ft' = ''low'') fs' = Inl ValueError"
    by (intro firwin_single_even_raises) simp_all
  then show "design_filter core ft' [c'] fs' n' True = Inl ValueError"
    by (simp add: design_filter_def bind_result_def)
next
  show "design_filter core filter_type cutoff fs order False
        = bind_result (design_iir_filter core filter_type cutoff fs) (\<lambda>(nb, na). Inr (nb, Some na))"
    by (simp add: design_filter_def design_iir_filter_def)
next
  show "design_filter core filter_type cutoff fs order False
        = design_filter core filter_type cutoff fs order' False"
    by (simp add: design_filter_def)
next
  assume "design_iir_filter core iir_type Wn fs = Inr (nb, na)"
  then have "butter core 6 Wn iir_type fs = Inr (nb, na)"
    by (simp add: design_iir_filter_def)
  from butter_result [OF this] obtain bt where
    bt: "band_dict (map lower_char iir_type) = Some bt"
    and co: "butter_coefficients core 6 bt (map (\<lambda>w. 2 * w / fs) Wn) = (nb, na)" by blast
  from butter_coefficients_shape [OF co]
  have "length nb = (if bt = Lowpass \<or> bt = Highpass then 7 else 13)"
    and "length na = (if bt = Lowpass \<or> bt = Highpass then 7 else 13)" and "hd na = 1"
    by (simp_all add: butter_degree_def)
  with bt show "\<exists>bt. band_dict (map lower_char iir_type) = Some bt
                \<and> length nb = (if bt = Lowpass \<or> bt = Highpass then 7 else 13)
                \<and> length na = (if bt = Lowpass \<or> bt = Highpass then 7 else 13)
                \<and> hd na = 1"
    by blast
next
  assume "0 < fs \<and> 0 < lo \<and> lo < hi \<and> hi < fs / 2"
  then have r: "butter core 6 [lo, hi] ''band'' fs
               = Inr (butter_coefficients core 6 Bandpass [2 * lo / fs, 2 * hi / fs])"
    by (intro butter_band_returns) simp_all
  obtain nb na where co: "butter_coefficients core 6 Bandpass [2 * lo / fs, 2 * hi / fs] = (nb, na)"
    by (cases "butter_coefficients core 6 Bandpass [2 * lo / fs, 2 * hi / fs]")
  from butter_coefficients_shape(1,2) [OF co] have "length nb = 13" "length na = 13"
    by (simp_all add: butter_degree_def)
  with r co show "\<exists>nb na. design_iir_filter core ''band'' [lo, hi] fs = Inr (nb, na)
                   \<and> length nb = 13 \<and> length na = 13"
    by (simp add: design_iir_filter_def)
next
  assume h: "0 < fs \<and> 0 < c \<and> c < fs / 2 \<and> (kind = ''low'' \<or> kind = ''high'')"
  then obtain bt where bt: "band_dict (map lower_char kind) = Some bt"
    and lh: "bt = Lowpass \<or> bt = Highpass"
    using band_dict_low_high by auto
  from h have r: "butter core 6 [c] kind fs = Inr (butter_coefficients core 6 bt [2 * c / fs])"
    by (intro butter_single_returns [OF _ _ _ bt lh]) simp_all
  obtain nb na where co: "butter_coefficients core 6 bt [2 * c / fs] = (nb, na)"
    by (cases "butter_coefficients core 6 bt [2 * c / fs]")
  from butter_coefficients_shape(1,2) [OF co] lh have "length nb = 7" "length na = 7"
    by (auto simp: butter_degree_def)
  with r co show "\<exists>nb na. design_filter core kind [c] fs order False = Inr (nb, Some na)
                   \<and> length nb = 7 \<and> length na = 7"
    by (simp add: design_filter_def bind_result_def)
qed

theorem design_output_shape_witness:
  "design_filter (\<lambda>N bt Wn i. (if i = 0 then 1 else 0, 0)) ''low'' [4000] 44100 101 True
     = Inr (firwin_taps 101 [(0, 80 / 441)], None)
   \<and> int (length (firwin_taps 101 [(0, 80 / 441)])) = 101
   \<and> (\<exists>taps. design_filter (\<lambda>N bt Wn i. (if i = 0 then 1 else 0, 0)) ''high'' [4000] 44100 101 True
                = Inr (taps, None) \<and> int (length taps) = 101)
   \<and> design_filter (\<lambda>N bt Wn i. (if i = 0 then 1 else 0, 0)) ''high'' [4000] 44100 100 True
     = Inl ValueError
   \<and> design_filter (\<lambda>N bt Wn i. (if i = 0 then 1 else 0, 0)) ''low'' [4000] 44100 101 False
     = Inr ([1, 0, 0, 0, 0, 0, 0], Some [1, 0, 0, 0, 0, 0, 0])
   \<and> design_filter (\<lambda>N bt Wn i. (if i = 0 then 1 else 0, 0)) ''low'' [4000] 44100 51 False
     = Inr ([1, 0, 0, 0, 0, 0, 0], Some [1, 0, 0, 0, 0, 0, 0])
   \<and> design_iir_filter (\<lambda>N bt Wn i. (if i = 0 then 1 else 0, 0)) ''band'' [150, 3500] 44100
     = Inr ([1, 0, 0, 0, 0, 0, 0, 0, 0, 0, 0, 0, 0], [1, 0, 0, 0, 0, 0, 0, 0, 0, 0, 0, 0, 0])
   \<and> band_dict (map lower_char ''band'') = Some Bandpass
   \<and> length [1, 0, 0, 0, 0, 0, 0, 0, 0, 0, 0, 0, 0 :: real] = 13
   \<and> (0 :: real) < 4000 \<and> (4000 :: real) < 44100 / 2 \<and> odd (101 :: int) \<and> even (100 :: int)
   \<and> (0 :: real) < 150 \<and> (150 :: real) < 3500 \<and> (3500 :: real) < 44100 / 2"
  using design_output_shape
    [where core = "\<lambda>N bt Wn i. (if i = 0 then 1 else 0, 0)" and filter_type = "''low''"
       and cutoff = "[4000]" and fs = 44100 and order = 101
       and b = "firwin_taps 101 [(0, 80 / 441)]" and a = None
       and c = 4000 and n = 101 and ft = "''high''"
       and ft' = "''high''" and n' = 100 and c' = 4000 and fs' = 44100
       and order' = 51
       and iir_type = "''band''" and Wn = "[150, 3500]"
       and nb = "[1, 0, 0, 0, 0, 0, 0, 0, 0, 0, 0, 0, 0]"
       and na = "[1, 0, 0, 0, 0, 0, 0, 0, 0, 0, 0, 0, 0]"
       and lo = 150 and hi = 3500 and kind = "''low''"]
  by (simp add: design_filter_def design_iir_filter_def firwin_def butter_def bind_result_def
        Let_def band_dict_def lower_char_def butter_coefficients_def butter_degree_def upt_rec
        length_firwin_taps)

section \<open>The transform pair: evaluation and lengths\<close>

lemma cis_minus_pi: "cis (- pi) = - 1"
  by (simp add: complex_eq_iff)

lemma Arg_of_real_pos: "0 < x \<Longrightarrow> Arg (complex_of_real x) = 0"
  by (rule cis_Arg_unique) (simp_all add: sgn_of_real)

lemma Arg_of_real_neg: "x < 0 \<Longrightarrow> Arg (complex_of_real x) = pi"
  by (rule cis_Arg_unique) (simp_all add: sgn_of_real)

lemmas fft_eval =
  spectral_subtraction_def rfft_def dft_bin_def irfft_def np_binary_def bind_result_def
  Let_def upt_rec cis_minus_pi

lemma spectral_subtraction_ones: "spectral_subtraction [1, 1] [0, 0] = Inr [1, 1]"
  using Arg_of_real_pos [of 2] by (simp add: fft_eval)

lemma spectral_subtraction_zeros: "spectral_subtraction [0, 0] [0, 0] = Inr [0, 0]"
  by (simp add: fft_eval)

lemma spectral_subtraction_minus_ones: "spectral_subtraction [- 1, - 1] [0, 0] = Inr [- 1, - 1]"
  using Arg_of_real_neg [of "- 2"] by (simp add: fft_eval)

lemma rfft_length:
  assumes "x \<noteq> []"
  shows "\<exists>X. rfft x = Inr X \<and> length X = length x div 2 + 1"
  using assms by (simp add: rfft_def Let_def)

lemma irfft_length:
  assumes "irfft X = Inr y"
  shows "length y = 2 * (length X - 1)"
  using assms by (auto simp: irfft_def Let_def split: if_splits)

lemma irfft_total:
  assumes "2 \<le> length X"
  shows "\<exists>y. irfft X = Inr y \<and> length y = 2 * (length X - 1)"
  using assms by (simp add: irfft_def Let_def)

lemma np_binary_same_length:
  assumes "length xs = length ys"
  shows "np_binary f xs ys = Inr (map2 f xs ys)"
  using assms by (simp add: np_binary_def)

lemma np_assign_not_broadcast:
  assumes "np_assign n vals = Inr out" and "length vals \<noteq> 1"
  shows "out = vals"
  using assms by (auto simp: np_assign_def split: if_splits)

text \<open>
  On a block and a noise estimate of the same length \<open>n \<ge> 2\<close>, spectral subtraction
  returns \<open>2 * (n div 2)\<close> samples: \<open>n\<close> when \<open>n\<close> is even, \<open>n - 1\<close> when it is odd,
  because \<^verbatim>\<open>irfft\<close> is called without the original length.
\<close>

lemma spectral_subtraction_length:
  assumes "length audio = length noise_estimate" and "2 \<le> length audio"
  shows "\<exists>out. spectral_subtraction audio noise_estimate = Inr out
            \<and> length out = 2 * (length audio div 2)"
proof -
  from assms have ne: "audio \<noteq> []" "noise_estimate \<noteq> []" by auto
  obtain S where S: "rfft audio = Inr S" "length S = length audio div 2 + 1"
    using rfft_length [OF ne(1)] by blast
  obtain N where N: "rfft noise_estimate = Inr N" "length N = length audio div 2 + 1"
    using rfft_length [OF ne(2)] assms(1) by auto
  let ?diff = "map2 (-) (map cmod S) (map cmod N)"
  let ?clean = "map (\<lambda>v. max v 0) ?diff"
  let ?Z = "map2 (\<lambda>mag ph. complex_of_real mag * cis ph) ?clean (map Arg S)"
  have d: "np_binary (-) (map cmod S) (map cmod N) = Inr ?diff"
    using S N by (simp add: np_binary_same_length)
  have z: "np_binary (\<lambda>mag ph. complex_of_real mag * cis ph) ?clean (map Arg S) = Inr ?Z"
    using S N by (simp add: np_binary_same_length)
  have lz: "length ?Z = length audio div 2 + 1"
    using S N by simp
  with assms(2) have "2 \<le> length ?Z"
    by (simp add: Suc_le_eq)
  from irfft_total [OF this] obtain out where
    "irfft ?Z = Inr out" "length out = 2 * (length ?Z - 1)" by blast
  with lz S N d z show ?thesis
    by (simp add: spectral_subtraction_def bind_result_def Let_def)
qed

lemma spectral_subtraction_single_sample: "spectral_subtraction [x] [y] = Inl ValueError"
  by (simp add: spectral_subtraction_def rfft_def irfft_def np_binary_def bind_result_def Let_def)

lemma spectral_subtraction_even:
  assumes "spectral_subtraction audio noise_estimate = Inr cleaned"
  shows "even (length cleaned)"
proof -
  from assms obtain Z where "irfft Z = Inr cleaned"
    by (auto simp: spectral_subtraction_def bind_result_def Let_def split: sum.splits)
  then show ?thesis by (simp add: irfft_length)
qed

section \<open>Recording\<close>

lemma audio_callback_unfold:
  assumes "audio_callback b a noise_profile ctl indata st = Inr (out, st')"
  shows "\<exists>cleaned audio_out.
           spectral_subtraction indata noise_profile = Inr cleaned
           \<and> process_audio (map Fin cleaned) b a (gain_slider ctl) (noise_gate_var ctl) = Inr audio_out
           \<and> np_assign (length indata) audio_out = Inr out
           \<and> recorded_audio st' = (if record_var ctl then recorded_audio st @ [audio_out]
                                    else recorded_audio st)"
proof (cases "spectral_subtraction indata noise_profile")
  case (Inl e)
  with assms show ?thesis by (simp add: audio_callback_def bind_result_def Let_def)
next
  case cleaned: (Inr cleaned)
  show ?thesis
  proof (cases "process_audio (map Fin cleaned) b a (gain_slider ctl) (noise_gate_var ctl)")
    case (Inl e)
    with assms cleaned show ?thesis by (simp add: audio_callback_def bind_result_def Let_def)
  next
    case audio_out: (Inr audio_out)
    show ?thesis
    proof (cases "np_assign (length indata) audio_out")
      case (Inl e)
      with assms cleaned audio_out show ?thesis
        by (simp add: audio_callback_def bind_result_def Let_def)
    next
      case outdata: (Inr outdata)
      with assms cleaned audio_out show ?thesis
        by (auto simp: audio_callback_def bind_result_def Let_def split: sum.splits)
    qed
  qed
qed

lemma audio_callback_records:
  assumes "audio_callback b a noise_profile ctl indata st = Inr (out, st')"
  shows "recorded_audio st'
           = (if record_var ctl then recorded_audio st @ [out] else recorded_audio st)"
proof -
  from audio_callback_unfold [OF assms] obtain cleaned audio_out where
    c: "spectral_subtraction indata noise_profile = Inr cleaned" and
    p: "process_audio (map Fin cleaned) b a (gain_slider ctl) (noise_gate_var ctl) = Inr audio_out" and
    o: "np_assign (length indata) audio_out = Inr out" and
    r: "recorded_audio st' = (if record_var ctl then recorded_audio st @ [audio_out]
                              else recorded_audio st)"
    by blast
  have "even (length audio_out)"
    using spectral_subtraction_even [OF c] process_audio_length [OF p] by simp
  then have "length audio_out \<noteq> 1" by auto
  with o have "out = audio_out" by (rule np_assign_not_broadcast)
  with r show ?thesis by simp
qed

text \<open>
  Claim C9.  In a session that starts with nothing recorded, let three calls of the
  stream callback with recording enabled write the blocks \<open>B1\<close>, \<open>B2\<close>, \<open>B3\<close>, each of
  length \<open>L\<close>.  Then the flush at the end of the stream, with the record flag set, writes
  one buffer of length \<open>3 * L\<close>, the concatenation of \<open>B1\<close>, \<open>B2\<close>, \<open>B3\<close> in that order.
\<close>

theorem recording_flush_is_concatenation_in_arrival_order:
  assumes "recorded_audio s0 = []"
    and "record_var c1" and "record_var c2" and "record_var c3"
    and "audio_callback b a noise_profile c1 in1 s0 = Inr (B1, s1)"
    and "audio_callback b a noise_profile c2 in2 s1 = Inr (B2, s2)"
    and "audio_callback b a noise_profile c3 in3 s2 = Inr (B3, s3)"
    and "length B1 = L" and "length B2 = L" and "length B3 = L"
    and "record_var c"
  shows "stream_thread_end c s3 = Inr (Some (B1 @ B2 @ B3))
         \<and> length (B1 @ B2 @ B3) = 3 * L"
proof -
  have "recorded_audio s1 = [B1]"
    using audio_callback_records [OF assms(5)] assms(1,2) by simp
  then have "recorded_audio s2 = [B1, B2]"
    using audio_callback_records [OF assms(6)] assms(3) by simp
  then have "recorded_audio s3 = [B1, B2, B3]"
    using audio_callback_records [OF assms(7)] assms(4) by simp
  with assms(8-11) show ?thesis
    by (simp add: stream_thread_end_def np_concatenate_def bind_result_def)
qed

lemma np_roll_left_two: "np_roll_left (Suc (Suc 0)) [p, q, r, s] = [r, s, p, q]"
  by (simp add: np_roll_left_def)

lemma process_audio_ones:
  "process_audio [Fin 1, Fin 1] [Fin 1] [Fin 1] (Fin 3) True = Inr [Fin 1, Fin 1]"
  by (simp add: process_audio_eval)

lemma process_audio_zeros:
  "process_audio [Fin 0, Fin 0] [Fin 1] [Fin 1] (Fin 3) True = Inr [Fin 0, Fin 0]"
  by (simp add: process_audio_eval)

lemma process_audio_minus_ones:
  "process_audio [Fin (- 1), Fin (- 1)] [Fin 1] [Fin 1] (Fin 3) True
     = Inr [Fin (- 1), Fin (- 1)]"
  by (simp add: process_audio_eval)

lemma audio_callback_first:
  "audio_callback [Fin 1] [Fin 1] [0, 0]
        \<lparr>gain_slider = Fin 3, noise_gate_var = True, record_var = True\<rparr> [1, 1]
     \<lparr>realtime_buffer = [Fin 0, Fin 0, Fin 0, Fin 0], recorded_audio = []\<rparr>
   = Inr ([Fin 1, Fin 1], \<lparr>realtime_buffer = [Fin 0, Fin 0, Fin 1, Fin 1],
          recorded_audio = [[Fin 1, Fin 1]]\<rparr>)"
  by (simp add: audio_callback_def spectral_subtraction_ones process_audio_ones
        np_roll_left_two bind_result_def np_assign_def Let_def)

lemma audio_callback_second:
  "audio_callback [Fin 1] [Fin 1] [0, 0]
        \<lparr>gain_slider = Fin 3, noise_gate_var = True, record_var = True\<rparr> [0, 0]
     \<lparr>realtime_buffer = [Fin 0, Fin 0, Fin 1, Fin 1],
          recorded_audio = [[Fin 1, Fin 1]]\<rparr>
   = Inr ([Fin 0, Fin 0], \<lparr>realtime_buffer = [Fin 1, Fin 1, Fin 0, Fin 0],
          recorded_audio = [[Fin 1, Fin 1], [Fin 0, Fin 0]]\<rparr>)"
  by (simp add: audio_callback_def spectral_subtraction_zeros process_audio_zeros
        np_roll_left_two bind_result_def np_assign_def Let_def)

lemma audio_callback_third:
  "audio_callback [Fin 1] [Fin 1] [0, 0]
        \<lparr>gain_slider = Fin 3, noise_gate_var = True, record_var = True\<rparr> [- 1, - 1]
     \<lparr>realtime_buffer = [Fin 1, Fin 1, Fin 0, Fin 0],
          recorded_audio = [[Fin 1, Fin 1], [Fin 0, Fin 0]]\<rparr>
   = Inr ([Fin (- 1), Fin (- 1)], \<lparr>realtime_buffer = [Fin 0, Fin 0, Fin (- 1), Fin (- 1)],
                         recorded_audio = [[Fin 1, Fin 1], [Fin 0, Fin 0], [Fin (- 1), Fin (- 1)]]\<rparr>)"
  by (simp add: audio_callback_def spectral_subtraction_minus_ones process_audio_minus_ones
        np_roll_left_two bind_result_def np_assign_def Let_def)

theorem recording_flush_is_concatenation_in_arrival_order_witness:
  "recorded_audio \<lparr>realtime_buffer = [Fin 0, Fin 0, Fin 0, Fin 0], recorded_audio = []\<rparr> = []
   \<and> record_var \<lparr>gain_slider = Fin 3, noise_gate_var = True, record_var = True\<rparr>
   \<and> audio_callback [Fin 1] [Fin 1] [0, 0]
        \<lparr>gain_slider = Fin 3, noise_gate_var = True, record_var = True\<rparr> [1, 1]
        \<lparr>realtime_buffer = [Fin 0, Fin 0, Fin 0, Fin 0], recorded_audio = []\<rparr>
      = Inr ([Fin 1, Fin 1], \<lparr>realtime_buffer = [Fin 0, Fin 0, Fin 1, Fin 1],
          recorded_audio = [[Fin 1, Fin 1]]\<rparr>)
   \<and> audio_callback [Fin 1] [Fin 1] [0, 0]
        \<lparr>gain_slider = Fin 3, noise_gate_var = True, record_var = True\<rparr> [0, 0]
        \<lparr>realtime_buffer = [Fin 0, Fin 0, Fin 1, Fin 1],
          recorded_audio = [[Fin 1, Fin 1]]\<rparr>
      = Inr ([Fin 0, Fin 0], \<lparr>realtime_buffer = [Fin 1, Fin 1, Fin 0, Fin 0],
          recorded_audio = [[Fin 1, Fin 1], [Fin 0, Fin 0]]\<rparr>)
   \<and> audio_callback [Fin 1] [Fin 1] [0, 0]
        \<lparr>gain_slider = Fin 3, noise_gate_var = True, record_var = True\<rparr> [- 1, - 1]
        \<lparr>realtime_buffer = [Fin 1, Fin 1, Fin 0, Fin 0],
          recorded_audio = [[Fin 1, Fin 1], [Fin 0, Fin 0]]\<rparr>
      = Inr ([Fin (- 1), Fin (- 1)], \<lparr>realtime_buffer = [Fin 0, Fin 0, Fin (- 1), Fin (- 1)],
                            recorded_audio = [[Fin 1, Fin 1], [Fin 0, Fin 0], [Fin (- 1), Fin (- 1)]]\<rparr>)
   \<and> length [Fin 1, Fin 1] = 2
   \<and> stream_thread_end \<lparr>gain_slider = Fin 3, noise_gate_var = True, record_var = True\<rparr>
        \<lparr>realtime_buffer = [Fin 0, Fin 0, Fin (- 1), Fin (- 1)],
          recorded_audio = [[Fin 1, Fin 1], [Fin 0, Fin 0], [Fin (- 1), Fin (- 1)]]\<rparr>
      = Inr (Some [Fin 1, Fin 1, Fin 0, Fin 0, Fin (- 1), Fin (- 1)])
   \<and> length [Fin 1, Fin 1, Fin 0, Fin 0, Fin (- 1), Fin (- 1)] = 3 * 2"
  using recording_flush_is_concatenation_in_arrival_order
    [OF _ _ _ _ audio_callback_first audio_callback_second audio_callback_third,
     of 2 "\<lparr>gain_slider = Fin 3, noise_gate_var = True, record_var = True\<rparr>"]
    audio_callback_first audio_callback_second audio_callback_third
  by simp

section \<open>The end of a session\<close>

text \<open>
  Claim C10, as stated: at the end of a session the recording is flushed if any block was
  recorded, and a session with recording enabled and nothing recorded ends without
  failure.  It fails on both counts: with a block recorded and the record flag cleared
  before the end, nothing is written; with the flag set and nothing recorded,
  \<^verbatim>\<open>np.concatenate\<close> raises.
\<close>

theorem stream_stop_counterexample:
  "stream_thread_end \<lparr>gain_slider = Fin 3, noise_gate_var = True, record_var = False\<rparr>
     \<lparr>realtime_buffer = [Fin 0, Fin 0], recorded_audio = [[Fin (1 / 2), Fin (1 / 4)]]\<rparr> = Inr None
   \<and> stream_thread_end \<lparr>gain_slider = Fin 3, noise_gate_var = True, record_var = True\<rparr>
     \<lparr>realtime_buffer = [Fin 0, Fin 0], recorded_audio = []\<rparr> = Inl ValueError"
  by (simp add: stream_thread_end_def np_concatenate_def bind_result_def)

text \<open>
  Claim C10, amended.  At the end of a session, if the record flag is set at that moment
  and at least one block was recorded, the recorded blocks are written, concatenated in
  arrival order; if the record flag is clear at that moment, the session ends without
  failure and writes nothing, whatever was recorded.
\<close>

theorem stream_stop_flushes_when_flag_set:
  "(record_var ctl \<and> recorded_audio st \<noteq> []
      \<longrightarrow> stream_thread_end ctl st = Inr (Some (concat (recorded_audio st))))
   \<and> (record_var ctl = False \<longrightarrow> stream_thread_end ctl st = Inr None)"
  by (simp add: stream_thread_end_def np_concatenate_def bind_result_def)

theorem stream_stop_flushes_when_flag_set_witness:
  "stream_thread_end \<lparr>gain_slider = Fin 3, noise_gate_var = True, record_var = True\<rparr>
     \<lparr>realtime_buffer = [Fin 0, Fin 0],
       recorded_audio = [[Fin (1 / 2), Fin (1 / 4)], [Fin 1, Fin (- 1)]]\<rparr>
     = Inr (Some [Fin (1 / 2), Fin (1 / 4), Fin 1, Fin (- 1)])
   \<and> stream_thread_end \<lparr>gain_slider = Fin 3, noise_gate_var = True, record_var = False\<rparr>
     \<lparr>realtime_buffer = [Fin 0, Fin 0],
       recorded_audio = [[Fin (1 / 2), Fin (1 / 4)], [Fin 1, Fin (- 1)]]\<rparr> = Inr None"
  using stream_stop_flushes_when_flag_set
     [of "\<lparr>gain_slider = Fin 3, noise_gate_var = True, record_var = True\<rparr>"
         "\<lparr>realtime_buffer = [Fin 0, Fin 0],
       recorded_audio = [[Fin (1 / 2), Fin (1 / 4)], [Fin 1, Fin (- 1)]]\<rparr>"]
    stream_stop_flushes_when_flag_set
     [of "\<lparr>gain_slider = Fin 3, noise_gate_var = True, record_var = False\<rparr>"
         "\<lparr>realtime_buffer = [Fin 0, Fin 0],
       recorded_audio = [[Fin (1 / 2), Fin (1 / 4)], [Fin 1, Fin (- 1)]]\<rparr>"]
  by simp

section \<open>The transform pair on blocks of even length\<close>

text \<open>
  On a block of even length \<open>n = 2 * h\<close>, \<^verbatim>\<open>irfft\<close> inverts \<^verbatim>\<open>rfft\<close>: the sum of the \<open>n\<close>-th roots
  of unity vanishes, the half spectrum pairs bin \<open>k\<close> with bin \<open>n - k\<close>, and what remains
  of the double sum is \<open>n\<close> times the sample.  With the all-zero noise profile the spectrum
  passes through spectral subtraction unchanged, since a complex number is its modulus
  times the unit vector of its argument.
\<close>

lemma cis_eq_one_imp_int:
  assumes "cis t = 1"
  shows "\<exists>m::int. t = real_of_int m * 2 * pi"
proof -
  from assms have "cos t = 1" by (simp add: complex_eq_iff)
  then show ?thesis by (simp add: cos_one_2pi_int)
qed

lemma roots_of_unity_sum:
  fixes d :: int and n :: nat
  assumes "d \<noteq> 0" and "\<bar>d\<bar> < int n"
  shows "(\<Sum>k<n. cis (2 * pi * real_of_int d * real k / real n)) = 0"
proof -
  let ?w = "cis (2 * pi * real_of_int d / real n)"
  from assms have n0: "0 < n" by auto
  have w1: "?w \<noteq> 1"
  proof
    assume "?w = 1"
    then obtain m :: int where m: "2 * pi * real_of_int d / real n = real_of_int m * 2 * pi"
      using cis_eq_one_imp_int by blast
    with n0 have "real_of_int d = real_of_int (m * int n)"
      by (simp add: field_simps)
    then have "d = m * int n" by linarith
    with assms show False
      by (cases "m = 0") (auto simp: abs_mult)
  qed
  have wn: "?w ^ n = 1"
  proof -
    have "?w ^ n = cis (2 * pi * real_of_int d)"
      using n0 by (simp add: DeMoivre)
    then show ?thesis by simp
  qed
  have "(\<Sum>k<n. cis (2 * pi * real_of_int d * real k / real n)) = (\<Sum>k<n. ?w ^ k)"
    by (rule sum.cong) (simp_all add: DeMoivre algebra_simps)
  also have "\<dots> = (?w ^ n - 1) / (?w - 1)"
    using w1 by (rule geometric_sum)
  finally show ?thesis by (simp add: wn)
qed

lemma cos_kernel_symmetric:
  fixes d :: int and n k :: nat
  assumes "k \<le> n" and "0 < n"
  shows "cos (2 * pi * real_of_int d * real (n - k) / real n)
           = cos (2 * pi * real_of_int d * real k / real n)"
proof -
  have "2 * pi * real_of_int d * real (n - k) / real n
          = 2 * pi * real_of_int d - 2 * pi * real_of_int d * real k / real n"
    using assms by (simp add: of_nat_diff field_simps)
  then show ?thesis
    by (simp add: cos_diff)
qed

lemma sum_paired:
  fixes f :: "nat \<Rightarrow> real"
  assumes "0 < h" and sym: "\<And>k. k \<le> 2 * h \<Longrightarrow> f (2 * h - k) = f k"
  shows "sum f {..<2 * h} = f 0 + 2 * sum f {1..<h} + f h"
proof -
  have upper: "sum f {Suc h..<2 * h} = sum f {1..<h}"
  proof (rule sum.reindex_bij_witness [of _ "\<lambda>k. 2 * h - k" "\<lambda>k. 2 * h - k"])
    fix k assume k: "k \<in> {Suc h..<2 * h}"
    then show "2 * h - (2 * h - k) = k" and "2 * h - k \<in> {1..<h}" by auto
    from k have "k \<le> 2 * h" by simp
    then show "f (2 * h - k) = f k" by (rule sym)
  next
    fix k assume "k \<in> {1..<h}"
    then show "2 * h - (2 * h - k) = k" and "2 * h - k \<in> {Suc h..<2 * h}" by auto
  qed
  have "sum f {0..<Suc h} + sum f {Suc h..<2 * h} = sum f {0..<2 * h}"
    using assms(1) by (intro sum.atLeastLessThan_concat) auto
  then have whole: "sum f {..<2 * h} = sum f {0..<Suc h} + sum f {Suc h..<2 * h}"
    by (simp only: lessThan_atLeast0)
  have "sum f {0..<Suc h} = sum f {0..<h} + f h"
    by simp
  moreover have "sum f {0..<h} = f 0 + sum f {1..<h}"
    using assms(1) by (simp add: sum.atLeast_Suc_lessThan)
  ultimately have lower: "sum f {0..<Suc h} = f 0 + sum f {1..<h} + f h"
    by (simp only:)
  show ?thesis
    by (simp only: whole lower upper)
qed

lemma cos_sum_paired:
  fixes d :: int and h :: nat
  assumes "0 < h"
  shows "(\<Sum>k<2 * h. cos (2 * pi * real_of_int d * real k / real (2 * h)))
           = 1 + 2 * (\<Sum>k = 1..<h. cos (2 * pi * real_of_int d * real k / real (2 * h)))
             + cos (pi * real_of_int d)"
proof -
  let ?f = "\<lambda>k. cos (2 * pi * real_of_int d * real k / real (2 * h))"
  have "sum ?f {..<2 * h} = ?f 0 + 2 * sum ?f {1..<h} + ?f h"
    using assms by (intro sum_paired cos_kernel_symmetric) simp_all
  moreover have "?f 0 = 1" by simp
  moreover have "?f h = cos (pi * real_of_int d)"
    using assms by (simp add: field_simps)
  ultimately show ?thesis by (simp only:)
qed

lemma cos_sum_zero:
  fixes d :: int and n :: nat
  assumes "d \<noteq> 0" and "\<bar>d\<bar> < int n"
  shows "(\<Sum>k<n. cos (2 * pi * real_of_int d * real k / real n)) = 0"
proof -
  have "Re (\<Sum>k<n. cis (2 * pi * real_of_int d * real k / real n)) = 0"
    by (simp only: roots_of_unity_sum [OF assms] zero_complex.sel)
  then show ?thesis by simp
qed

lemma cos_kernel:
  fixes d :: int and h :: nat
  assumes "0 < h" and "\<bar>d\<bar> < int (2 * h)"
  shows "1 + 2 * (\<Sum>k = 1..<h. cos (2 * pi * real_of_int d * real k / real (2 * h)))
           + cos (pi * real_of_int d)
         = (if d = 0 then real (2 * h) else 0)"
proof (cases "d = 0")
  case True
  with assms(1) show ?thesis by (simp add: of_nat_diff)
next
  case False
  from cos_sum_zero [OF False assms(2)] cos_sum_paired [OF assms(1), of d] False
  show ?thesis by (simp only: if_False)
qed

lemma sum_list_upt_sum: "sum_list (map f [a..<b]) = sum f {a..<b}"
  by (simp add: interv_sum_list_conv_sum_set_nat)

lemma Re_bin_times_phase:
  "Re (dft_bin x k * cis (2 * pi * real j * real k / real (length x)))
     = (\<Sum>l<length x. x ! l * cos (2 * pi * real_of_int (int j - int l) * real k / real (length x)))"
proof -
  let ?n = "length x"
  have "dft_bin x k * cis (2 * pi * real j * real k / real ?n)
          = (\<Sum>l<?n. complex_of_real (x ! l)
               * cis (2 * pi * real_of_int (int j - int l) * real k / real ?n))"
    unfolding dft_bin_def sum_list_upt_sum sum_distrib_right atLeast0LessThan
  proof (rule sum.cong)
    fix l
    have "cis (- (2 * pi * real l * real k / real ?n)) * cis (2 * pi * real j * real k / real ?n)
            = cis (2 * pi * real_of_int (int j - int l) * real k / real ?n)"
      by (simp add: cis_mult algebra_simps diff_divide_distrib)
    then show "complex_of_real (x ! l) * cis (- (2 * pi * real l * real k / real ?n))
                 * cis (2 * pi * real j * real k / real ?n)
               = complex_of_real (x ! l)
                 * cis (2 * pi * real_of_int (int j - int l) * real k / real ?n)"
      by (simp only: mult.assoc)
  qed simp
  then show ?thesis by simp
qed

lemma irfft_sample:
  assumes len: "length x = 2 * h" and h: "0 < h" and j: "j < 2 * h"
  shows "Re (dft_bin x 0)
           + (\<Sum>k = 1..<h. 2 * Re (dft_bin x k * cis (2 * pi * real j * real k / real (2 * h))))
           + Re (dft_bin x h) * cos (pi * real j)
         = real (2 * h) * x ! j"
proof -
  let ?c = "\<lambda>l k. cos (2 * pi * real_of_int (int j - int l) * real k / real (2 * h))"
  have bin: "Re (dft_bin x k * cis (2 * pi * real j * real k / real (2 * h)))
               = (\<Sum>l<2 * h. x ! l * ?c l k)" for k
    using Re_bin_times_phase [of x k j] by (simp only: len)
  have first: "Re (dft_bin x 0) = (\<Sum>l<2 * h. x ! l * ?c l 0)"
    using bin [of 0] by simp
  have "cis (2 * pi * real j * real h / real (2 * h)) = complex_of_real (cos (pi * real j))"
    using h by (simp add: complex_eq_iff mult.commute)
  then have "Re (dft_bin x h) * cos (pi * real j)
               = Re (dft_bin x h * cis (2 * pi * real j * real h / real (2 * h)))"
    by simp
  then have last: "Re (dft_bin x h) * cos (pi * real j) = (\<Sum>l<2 * h. x ! l * ?c l h)"
    by (simp only: bin)
  have middle: "(\<Sum>k = 1..<h. 2 * Re (dft_bin x k * cis (2 * pi * real j * real k / real (2 * h))))
                  = (\<Sum>l<2 * h. x ! l * (2 * (\<Sum>k = 1..<h. ?c l k)))"
  proof -
    have "(\<Sum>k = 1..<h. 2 * Re (dft_bin x k * cis (2 * pi * real j * real k / real (2 * h))))
            = (\<Sum>k = 1..<h. \<Sum>l<2 * h. 2 * (x ! l * ?c l k))"
      by (simp only: bin sum_distrib_left)
    also have "\<dots> = (\<Sum>l<2 * h. \<Sum>k = 1..<h. 2 * (x ! l * ?c l k))"
      by (rule sum.swap)
    also have "\<dots> = (\<Sum>l<2 * h. x ! l * (2 * (\<Sum>k = 1..<h. ?c l k)))"
      by (rule sum.cong) (simp_all add: sum_distrib_left mult.left_commute)
    finally show ?thesis .
  qed
  have kernel: "?c l 0 + 2 * (\<Sum>k = 1..<h. ?c l k) + ?c l h
                  = (if l = j then real (2 * h) else 0)" if "l < 2 * h" for l
  proof -
    have bound: "\<bar>int j - int l\<bar> < int (2 * h)"
      using j that by linarith
    have c0: "?c l 0 = 1" by simp
    have "2 * pi * D * real h / real (2 * h) = pi * D" for D :: real
      using h by simp
    then have ch: "?c l h = cos (pi * real_of_int (int j - int l))"
      by (simp only:)
    have "(int j - int l = 0) = (l = j)" by auto
    with cos_kernel [OF h bound] show ?thesis
      by (simp only: c0 ch)
  qed
  have "Re (dft_bin x 0)
          + (\<Sum>k = 1..<h. 2 * Re (dft_bin x k * cis (2 * pi * real j * real k / real (2 * h))))
          + Re (dft_bin x h) * cos (pi * real j)
        = (\<Sum>l<2 * h. x ! l * (?c l 0 + 2 * (\<Sum>k = 1..<h. ?c l k) + ?c l h))"
    by (simp only: first middle last sum.distrib [symmetric] distrib_left)
  also have "\<dots> = (\<Sum>l<2 * h. x ! l * (if l = j then real (2 * h) else 0))"
    by (rule sum.cong) (simp_all only: kernel lessThan_iff)
  also have "\<dots> = (\<Sum>l<2 * h. if l = j then x ! l * real (2 * h) else 0)"
    by (rule sum.cong) simp_all
  also have "\<dots> = x ! j * real (2 * h)"
    using j by (simp add: sum.delta)
  finally show ?thesis by (simp only: mult.commute)
qed

lemma rfft_bins:
  assumes "x \<noteq> []"
  shows "rfft x = Inr (map (dft_bin x) [0..<length x div 2 + 1])"
  using assms by (simp add: rfft_def Let_def)

lemma irfft_of_bins:
  assumes len: "length x = 2 * h" and h: "0 < h"
  shows "irfft (map (dft_bin x) [0..<h + 1]) = Inr x"
proof -
  let ?X = "map (dft_bin x) [0..<h + 1]"
  let ?y = "map (\<lambda>j. (Re (?X ! 0)
                  + sum_list (map (\<lambda>k. 2 * Re (?X ! k * cis (2 * pi * real j * real k / real (2 * h))))
                                  [1..<h])
                  + Re (?X ! h) * cos (pi * real j)) / real (2 * h)) [0..<2 * h]"
  have run: "irfft ?X = Inr ?y"
    using h by (simp add: irfft_def Let_def)
  have "?y = x"
  proof (rule nth_equalityI)
    show "length ?y = length x" by (simp add: len)
  next
    fix j assume "j < length ?y"
    then have j: "j < 2 * h" by simp
    have inner: "sum_list (map (\<lambda>k. 2 * Re (?X ! k * cis (2 * pi * real j * real k / real (2 * h))))
                               [1..<h])
                   = (\<Sum>k = 1..<h. 2 * Re (dft_bin x k * cis (2 * pi * real j * real k / real (2 * h))))"
      unfolding sum_list_upt_sum
      by (rule sum.cong) (simp_all del: upt_Suc)
    have x0: "?X ! 0 = dft_bin x 0" and xh: "?X ! h = dft_bin x h"
      by (simp_all del: upt_Suc)
    have "?y ! j = (Re (dft_bin x 0)
                      + (\<Sum>k = 1..<h. 2 * Re (dft_bin x k * cis (2 * pi * real j * real k / real (2 * h))))
                      + Re (dft_bin x h) * cos (pi * real j)) / real (2 * h)"
      using j by (simp only: nth_map length_upt diff_zero nth_upt add_0 inner x0 xh)
    also have "\<dots> = x ! j"
      using h by (simp only: irfft_sample [OF len h j]) simp
    finally show "?y ! j = x ! j" .
  qed
  with run show ?thesis by (simp only:)
qed

lemma dft_bin_silence: "dft_bin (replicate n 0) k = 0"
  unfolding dft_bin_def sum_list_upt_sum length_replicate
  by (rule sum.neutral) simp

lemma dft_bins_silence: "map (dft_bin (replicate n 0)) ks = replicate (length ks) 0"
  by (induction ks) (simp_all add: dft_bin_silence)

lemma polar_form_list:
  "map2 (\<lambda>mag ph. complex_of_real mag * cis ph) (map cmod S) (map Arg S) = S"
proof (induction S)
  case Nil
  show ?case by simp
next
  case (Cons z S)
  have "complex_of_real (cmod z) * cis (Arg z) = z"
    using rcis_cmod_Arg [of z] by (simp add: rcis_def)
  with Cons show ?case by simp
qed

lemma subtract_zero_floor:
  "map (\<lambda>v. max v 0) (map2 (-) (map cmod S) (replicate (length S) 0)) = map cmod S"
proof (induction S)
  case Nil
  show ?case by simp
next
  case (Cons z S)
  then show ?case by simp
qed

lemma spectral_subtraction_zero_profile_even:
  assumes len: "length x = 2 * h" and h: "0 < h"
  shows "spectral_subtraction x (replicate (2 * h) 0) = Inr x"
proof -
  let ?S = "map (dft_bin x) [0..<h + 1]"
  from len h have ne: "x \<noteq> []" "replicate (2 * h) (0 :: real) \<noteq> []" by auto
  have S: "rfft x = Inr ?S"
    using rfft_bins [OF ne(1)] by (simp add: len)
  have "map (dft_bin (replicate (2 * h) 0)) [0..<h + 1] = replicate (length ?S) 0"
    using dft_bins_silence [of "2 * h" "[0..<h + 1]"] by (simp only: length_map)
  moreover have "rfft (replicate (2 * h) 0)
                   = Inr (map (dft_bin (replicate (2 * h) 0)) [0..<h + 1])"
    using rfft_bins [OF ne(2)] by simp
  ultimately have N: "rfft (replicate (2 * h) 0) = Inr (replicate (length ?S) 0)"
    by (simp only:)
  have mags: "map cmod (replicate (length ?S) (0 :: complex)) = replicate (length ?S) 0"
    by simp
  have d: "np_binary (-) (map cmod ?S) (replicate (length ?S) 0)
             = Inr (map2 (-) (map cmod ?S) (replicate (length ?S) 0))"
    by (rule np_binary_same_length) simp
  have z: "np_binary (\<lambda>mag ph. complex_of_real mag * cis ph) (map cmod ?S) (map Arg ?S) = Inr ?S"
    by (simp only: np_binary_same_length length_map polar_form_list)
  show ?thesis
    unfolding spectral_subtraction_def
    by (simp only: S N bind_result_def sum.case Let_def mags d subtract_zero_floor z
          irfft_of_bins [OF len h])
qed

section \<open>Spectral subtraction\<close>

text \<open>
  Claim C4.  The output of spectral subtraction should be as long as its input, also for
  odd lengths.  On the block \<open>[1, 2, 3]\<close> and a noise profile of the same length,
  \<open>spectral_subtraction\<close> returns two samples, not three; by
  \<open>spectral_subtraction_length\<close> only blocks of even length keep their length.
\<close>

theorem spectral_subtraction_odd_block_length:
  "map_sum id length (spectral_subtraction [1, 2, 3] [0, 0, 0]) = Inr 2"
  using spectral_subtraction_length [of "[1, 2, 3]" "[0, 0, 0]"]
  by auto

text \<open>
  Claim C7.  Spectral subtraction with the all-zero noise profile should return every
  block unchanged.  It does so on blocks of even length
  (\<open>spectral_subtraction_zero_profile_even\<close>), but it does not return the block
  \<open>[1, 2, 3]\<close> unchanged.
\<close>

theorem spectral_subtraction_zero_profile_odd_block:
  "spectral_subtraction [1, 2, 3] [0, 0, 0] \<noteq> Inr [1, 2, 3]"
  using spectral_subtraction_length [of "[1, 2, 3]" "[0, 0, 0]"]
  by auto

end
